theory Spec2Isabelle
  imports Main
begin

section \<open>The container reaper of containerreaper.go\<close>

text \<open>
  The reaper is a control loop over four collaborators: the container registry
  (\<open>ContainerReaperDB\<close>), the worker client, the pipeline factory and the logger.
  The embedding keeps the Go structure: every collaborator is a record of the answers
  it gives, every call the reaper makes on a collaborator is appended to a trace, and
  each Go function takes the trace and returns it extended. Within one pass a
  collaborator answers as a function of its arguments.

  Go's \<open>int\<close> is modelled by \<open>int\<close>: build and job identifiers are only compared,
  never computed with, so no overflow can occur. A Go \<open>error\<close> is its message, and
  \<open>None\<close> is the nil error. A nil slice and an empty slice are both \<open>[]\<close>; ranging
  over either does nothing.
\<close>

subsection \<open>Data\<close>

type_synonym error = string

text \<open>\<open>db.SavedContainer\<close>, with the four fields the reaper reads.\<close>

record SavedContainer =
  Handle :: string
  BuildID :: int
  JobName :: string
  PipelineID :: int

record JobConfig =
  Name :: string

record Config =
  Jobs :: "JobConfig list"

text \<open>
  A \<open>db.PipelineDB\<close> is what its \<open>GetConfig()\<close> returns: the configuration, the
  found flag and the error (the version token is discarded by the caller).
\<close>

record PipelineDB =
  GetConfig :: "Config \<times> bool \<times> error option"

record PipelineDBFactory =
  BuildWithID :: "int \<Rightarrow> PipelineDB \<times> error option"

text \<open>\<open>worker.Client\<close>: the found flag and the error of \<open>LookupContainer\<close>.\<close>

record Client =
  LookupContainer :: "string \<Rightarrow> bool \<times> error option"

record ContainerReaperDB =
  FindJobIDForBuild :: "int \<Rightarrow> int \<times> bool \<times> error option"
  FindOrphanContainersWithInfiniteTTL :: "SavedContainer list \<times> error option"
  FindContainersFromSuccessfulBuildsWithInfiniteTTL :: "SavedContainer list \<times> error option"
  FindContainersFromUnsuccessfulBuildsWithInfiniteTTL :: "SavedContainer list \<times> error option"
  UpdateExpiresAtOnContainer :: "string \<Rightarrow> error option"

record containerReaper =
  workerClient :: Client
  db :: ContainerReaperDB
  pipelineDBFactory :: PipelineDBFactory

text \<open>
  The calls a pass makes on its collaborators, in order. \<open>WorkerRelease h\<close> is
  \<open>workerContainer.Release(worker.FinalTTL(worker.ContainerTTL))\<close> on the container
  found for \<open>h\<close>; \<open>UpdateExpiresAt h\<close> is
  \<open>UpdateExpiresAtOnContainer(h, worker.ContainerTTL)\<close>; \<open>Logged m\<close> is
  \<open>logger.Error(m, ...)\<close>.
\<close>

datatype event =
    FindSuccessful
  | FindUnsuccessful
  | FindJobID int
  | BuildPipeline int
  | FetchConfig int
  | Lookup string
  | WorkerRelease string
  | UpdateExpiresAt string
  | Logged string

type_synonym trace = "event list"

subsection \<open>The release operation\<close>

definition updateWorkerContainerTTL :: "containerReaper \<Rightarrow> string \<Rightarrow> trace \<Rightarrow> error option \<times> trace" where
  "updateWorkerContainerTTL cr handle t =
     (let (found, err) = LookupContainer (workerClient cr) handle;
          t1 = t @ [Lookup handle]
      in if err \<noteq> None then (err, t1 @ [Logged ''error-finding-worker-container''])
         else if \<not> found then
           (Some ''worker-container-not-found'', t1 @ [Logged ''worker-containerr-not-found''])
         else (None, t1 @ [WorkerRelease handle]))"

definition release :: "containerReaper \<Rightarrow> string \<Rightarrow> trace \<Rightarrow> error option \<times> trace" where
  "release cr handle t =
     (let (err, t1) = updateWorkerContainerTTL cr handle t
      in if err \<noteq> None then (err, t1)
         else
           (let err2 = UpdateExpiresAtOnContainer (db cr) handle;
                t2 = t1 @ [UpdateExpiresAt handle]
            in if err2 \<noteq> None then (err2, t2 @ [Logged ''error-updating-db-container-ttl''])
               else (err2, t2)))"

subsection \<open>The aggregate of successful builds\<close>

text \<open>Indexing a Go \<open>map[int]int\<close>: the zero value for an absent key.\<close>

definition mapIndex :: "(int \<rightharpoonup> int) \<Rightarrow> int \<Rightarrow> int" where
  "mapIndex m k = (case m k of None \<Rightarrow> 0 | Some v \<Rightarrow> v)"

text \<open>The body of the loop of \<open>buildSuccessMap\<close>, for one container.\<close>

definition buildSuccessMapStep ::
  "containerReaper \<Rightarrow> (int \<rightharpoonup> int) \<times> trace \<Rightarrow> SavedContainer \<Rightarrow> (int \<rightharpoonup> int) \<times> trace" where
  "buildSuccessMapStep cr s container =
     (let (jobContainerMap, t) = s;
          buildID = BuildID container;
          (jobID, found, err) = FindJobIDForBuild (db cr) buildID;
          t1 = t @ [FindJobID buildID]
      in if err \<noteq> None \<or> \<not> found then
           (jobContainerMap,
            snd (release cr (Handle container) (t1 @ [Logged ''find-job-id-for-build''])))
         else
           (let maxSuccessfulBuildID = mapIndex jobContainerMap jobID
            in if buildID > maxSuccessfulBuildID
               then (jobContainerMap(jobID \<mapsto> buildID), t1)
               else (jobContainerMap, t1)))"

definition buildSuccessMap ::
  "containerReaper \<Rightarrow> SavedContainer list \<Rightarrow> trace \<Rightarrow> (int \<rightharpoonup> int) \<times> trace" where
  "buildSuccessMap cr containers t =
     (if containers = [] then (Map.empty, t)
      else foldl (buildSuccessMapStep cr) (Map.empty, t) containers)"

subsection \<open>The groups of unsuccessful builds\<close>

text \<open>The search through \<open>pipelineConfig.Jobs\<close>, leaving at the first match.\<close>

fun jobExpired :: "JobConfig list \<Rightarrow> string \<Rightarrow> bool" where
  "jobExpired [] jobName = True"
| "jobExpired (jobConfig # rest) jobName =
     (if Name jobConfig = jobName then False else jobExpired rest jobName)"

text \<open>The body of the loop of \<open>buildFailedMap\<close>, for one container.\<close>

definition buildFailedMapStep ::
  "containerReaper \<Rightarrow> (int \<rightharpoonup> SavedContainer list) \<times> trace \<Rightarrow> SavedContainer
     \<Rightarrow> (int \<rightharpoonup> SavedContainer list) \<times> trace" where
  "buildFailedMapStep cr s container =
     (let (jobContainerMap, t) = s;
          (pipelineDB, err) = BuildWithID (pipelineDBFactory cr) (PipelineID container);
          t1 = t @ [BuildPipeline (PipelineID container)]
      in if err \<noteq> None then
           (jobContainerMap, snd (release cr (Handle container) (t1 @ [Logged ''no pipeline''])))
         else
           (let (pipelineConfig, found, err) = GetConfig pipelineDB;
                t2 = t1 @ [FetchConfig (PipelineID container)]
            in if err \<noteq> None \<or> \<not> found then
                 (jobContainerMap, snd (release cr (Handle container) t2))
               else if jobExpired (Jobs pipelineConfig) (JobName container) then
                 (jobContainerMap, snd (release cr (Handle container) t2))
               else
                 (let buildID = BuildID container;
                      (jobID, found, err) = FindJobIDForBuild (db cr) buildID;
                      t3 = t2 @ [FindJobID buildID]
                  in if err \<noteq> None \<or> \<not> found then
                       (jobContainerMap,
                        snd (release cr (Handle container)
                               (t3 @ [Logged ''find-job-id-for-build''])))
                     else
                       (case jobContainerMap jobID of
                          None \<Rightarrow> (jobContainerMap(jobID \<mapsto> [container]), t3)
                        | Some jobContainers \<Rightarrow>
                            (jobContainerMap(jobID \<mapsto> jobContainers @ [container]), t3)))))"

definition buildFailedMap ::
  "containerReaper \<Rightarrow> SavedContainer list \<Rightarrow> trace \<Rightarrow> (int \<rightharpoonup> SavedContainer list) \<times> trace" where
  "buildFailedMap cr containers t = foldl (buildFailedMapStep cr) (Map.empty, t) containers"

subsection \<open>The pass\<close>

text \<open>Lines 82 to 85 of \<open>Run\<close>: every successful container is released.\<close>

definition releaseSuccessful :: "containerReaper \<Rightarrow> SavedContainer list \<Rightarrow> trace \<Rightarrow> trace" where
  "releaseSuccessful cr successfulContainers t =
     foldl (\<lambda>t container.
              snd (release cr (Handle container) (t @ [Logged ''successful-container: ''])))
       t successfulContainers"

text \<open>Lines 98 to 103: the highest build identifier of a group, starting from \<open>-1\<close>.\<close>

definition maxFailedBuildID :: "SavedContainer list \<Rightarrow> int" where
  "maxFailedBuildID jobContainers =
     foldl (\<lambda>m jobContainer. if BuildID jobContainer > m then BuildID jobContainer else m)
       (- 1) jobContainers"

text \<open>Lines 98 to 112: the body of the loop over the groups, for one job.\<close>

definition releaseJob ::
  "containerReaper \<Rightarrow> (int \<rightharpoonup> int) \<Rightarrow> int \<Rightarrow> SavedContainer list \<Rightarrow> trace \<Rightarrow> trace" where
  "releaseJob cr successfulJobContainerMap jobID jobContainers t =
     (let maxFailed = maxFailedBuildID jobContainers
      in foldl (\<lambda>t jobContainer.
                  (let maxSuccessfulBuildID = mapIndex successfulJobContainerMap jobID
                   in if maxSuccessfulBuildID > maxFailed \<or> maxFailed > BuildID jobContainer
                      then snd (release cr (Handle jobContainer) t)
                      else t))
           t jobContainers)"

text \<open>
  Lines 97 to 113. Go visits the keys of a map in an order of its own choosing; the
  order \<open>ks\<close> is a parameter, and nothing proved below depends on it.
\<close>

definition releaseJobs ::
  "containerReaper \<Rightarrow> int list \<Rightarrow> (int \<rightharpoonup> SavedContainer list) \<Rightarrow> (int \<rightharpoonup> int) \<Rightarrow> trace \<Rightarrow> trace" where
  "releaseJobs cr ks failedJobContainerMap successfulJobContainerMap t =
     foldl (\<lambda>t jobID.
              (case failedJobContainerMap jobID of
                 None \<Rightarrow> t
               | Some jobContainers \<Rightarrow>
                   releaseJob cr successfulJobContainerMap jobID jobContainers t))
       t ks"

definition Run ::
  "containerReaper \<Rightarrow> ((int \<rightharpoonup> SavedContainer list) \<Rightarrow> int list) \<Rightarrow> error option \<times> trace" where
  "Run cr order =
     (let (successfulContainers, err) = FindContainersFromSuccessfulBuildsWithInfiniteTTL (db cr);
          t1 = [FindSuccessful, Logged ''running-container-reaper''];
          t2 = (if err \<noteq> None then t1 @ [Logged ''failed-to-find-successful-containers'']
                else releaseSuccessful cr successfulContainers t1);
          (failedContainers, err) = FindContainersFromUnsuccessfulBuildsWithInfiniteTTL (db cr);
          t3 = t2 @ [FindUnsuccessful]
      in if err \<noteq> None then (err, t3 @ [Logged ''failed-to-find-unsuccessful-containers''])
         else
           (let (failedJobContainerMap, t4) = buildFailedMap cr failedContainers t3;
                (successfulJobContainerMap, t5) = buildSuccessMap cr successfulContainers t4
            in (None,
                releaseJobs cr (order failedJobContainerMap) failedJobContainerMap
                  successfulJobContainerMap t5)))"

subsection \<open>Observing a pass\<close>

text \<open>
  The release operation starts with the worker lookup and nothing else calls it, so the
  handles on which \<open>release\<close> was invoked, in order, are the handles of the
  \<open>Lookup\<close> events of the trace.
\<close>

fun releaseOf :: "event \<Rightarrow> string list" where
  "releaseOf (Lookup h) = [h]"
| "releaseOf e = []"

definition releases :: "trace \<Rightarrow> string list" where
  "releases t = concat (map releaseOf t)"

text \<open>
  The conditions of step 2 in the words of the specification: the pipeline or its
  configuration cannot be found, or the job name is not among the configured jobs.
\<close>

definition staleByConfiguration :: "containerReaper \<Rightarrow> SavedContainer \<Rightarrow> bool" where
  "staleByConfiguration cr c =
     (case BuildWithID (pipelineDBFactory cr) (PipelineID c) of
        (pipelineDB, err) \<Rightarrow>
          err \<noteq> None \<or>
          (case GetConfig pipelineDB of
             (config, found, err) \<Rightarrow>
               err \<noteq> None \<or> \<not> found \<or> JobName c \<notin> set (map Name (Jobs config))))"

text \<open>The build of a container resolves to no job: the resolver errs or finds nothing.\<close>

definition unresolvable :: "containerReaper \<Rightarrow> SavedContainer \<Rightarrow> bool" where
  "unresolvable cr c =
     (case FindJobIDForBuild (db cr) (BuildID c) of
        (jobID, found, err) \<Rightarrow> err \<noteq> None \<or> \<not> found)"

definition jobOf :: "containerReaper \<Rightarrow> SavedContainer \<Rightarrow> int" where
  "jobOf cr c = fst (FindJobIDForBuild (db cr) (BuildID c))"

text \<open>The containers of a candidate list that reach the group of job \<open>j\<close>.\<close>

definition grouped :: "containerReaper \<Rightarrow> int \<Rightarrow> SavedContainer list \<Rightarrow> SavedContainer list" where
  "grouped cr j cs =
     filter (\<lambda>c. \<not> staleByConfiguration cr c \<and> \<not> unresolvable cr c \<and> jobOf cr c = j) cs"

text \<open>The handles the loop over the groups selects, job by job, by the test of line 108.\<close>

definition jobSelection :: "(int \<rightharpoonup> int) \<Rightarrow> int \<Rightarrow> SavedContainer list \<Rightarrow> string list" where
  "jobSelection sm j cs =
     map Handle
       (filter (\<lambda>c. mapIndex sm j > maxFailedBuildID cs \<or> maxFailedBuildID cs > BuildID c) cs)"

definition jobsSelection ::
  "(int \<rightharpoonup> SavedContainer list) \<Rightarrow> (int \<rightharpoonup> int) \<Rightarrow> int list \<Rightarrow> string list" where
  "jobsSelection fm sm ks =
     concat (map (\<lambda>j. case fm j of None \<Rightarrow> [] | Some cs \<Rightarrow> jobSelection sm j cs) ks)"

text \<open>The aggregate of \<open>buildSuccessMap\<close> without its trace.\<close>

definition aggregate :: "containerReaper \<Rightarrow> (int \<rightharpoonup> int) \<Rightarrow> SavedContainer list \<Rightarrow> (int \<rightharpoonup> int)" where
  "aggregate cr m cs =
     foldl (\<lambda>m c. if unresolvable cr c then m
                   else if BuildID c > mapIndex m (jobOf cr c) then m(jobOf cr c \<mapsto> BuildID c)
                   else m)
       m cs"

text \<open>
  What Go guarantees of a \<open>range\<close> over a map: every key is visited, once.
\<close>

definition rangeOrder :: "int list \<Rightarrow> (int \<rightharpoonup> 'v) \<Rightarrow> bool" where
  "rangeOrder ks m \<longleftrightarrow> distinct ks \<and> set ks = dom m"

text \<open>
  The aggregate of step 1 in the words of the specification: the highest build
  identifier among the successful-build candidates that resolve to job \<open>j\<close>, and 0,
  which is below every real build identifier, when there is none.
\<close>

definition highestSuccessfulBuildID :: "containerReaper \<Rightarrow> SavedContainer list \<Rightarrow> int \<Rightarrow> int" where
  "highestSuccessfulBuildID cr cs j =
     Max (set (0 # map BuildID (filter (\<lambda>c. \<not> unresolvable cr c \<and> jobOf cr c = j) cs)))"

subsection \<open>A small fleet\<close>

text \<open>
  One pipeline with the single job \<open>unit\<close>. The worker has lost the container
  \<open>lost\<close> and cannot be reached for \<open>broken\<close>; the registry refuses to
  update \<open>stuck\<close>. Builds below \<open>n\<close> resolve to job 1, the others to nothing.
\<close>

definition container :: "string \<Rightarrow> int \<Rightarrow> string \<Rightarrow> SavedContainer" where
  "container h b j = \<lparr>Handle = h, BuildID = b, JobName = j, PipelineID = 1\<rparr>"

definition resolveBelow :: "int \<Rightarrow> int \<Rightarrow> int \<times> bool \<times> error option" where
  "resolveBelow n b = (if b < n then (1, True, None) else (0, False, None))"

definition fleet ::
  "(int \<Rightarrow> int \<times> bool \<times> error option) \<Rightarrow> SavedContainer list \<times> error option
     \<Rightarrow> SavedContainer list \<times> error option \<Rightarrow> containerReaper" where
  "fleet resolver successful unsuccessful =
     \<lparr>workerClient =
        \<lparr>LookupContainer =
           (\<lambda>h. if h = ''broken'' then (False, Some ''worker-unreachable'')
                else if h = ''lost'' then (False, None)
                else (True, None))\<rparr>,
      db =
        \<lparr>FindJobIDForBuild = resolver,
         FindOrphanContainersWithInfiniteTTL = ([container ''orphan'' 0 ''''], None),
         FindContainersFromSuccessfulBuildsWithInfiniteTTL = successful,
         FindContainersFromUnsuccessfulBuildsWithInfiniteTTL = unsuccessful,
         UpdateExpiresAtOnContainer =
           (\<lambda>h. if h = ''stuck'' then Some ''registry-down'' else None)\<rparr>,
      pipelineDBFactory =
        \<lparr>BuildWithID =
           (\<lambda>p. (\<lparr>GetConfig = (\<lparr>Jobs = [\<lparr>Name = ''unit''\<rparr>]\<rparr>, True, None)\<rparr>, None))\<rparr>\<rparr>"

definition visit :: "int list \<Rightarrow> (int \<rightharpoonup> SavedContainer list) \<Rightarrow> int list" where
  "visit ks m = ks"

section \<open>The trace of each function\<close>

lemma releases_append [simp]: "releases (a @ b) = releases a @ releases b"
  by (simp add: releases_def)

lemma releases_Nil [simp]: "releases [] = []"
  by (simp add: releases_def)

lemma releases_Cons [simp]: "releases (e # t) = releaseOf e @ releases t"
  by (simp add: releases_def)

lemma release_extends: "snd (release cr h t) = t @ snd (release cr h [])"
  by (auto simp: release_def updateWorkerContainerTTL_def Let_def split: prod.splits)

lemma release_result: "fst (release cr h t) = fst (release cr h [])"
  by (auto simp: release_def updateWorkerContainerTTL_def Let_def split: prod.splits)

lemma release_releases [simp]: "releases (snd (release cr h t)) = releases t @ [h]"
  by (auto simp: release_def updateWorkerContainerTTL_def Let_def split: prod.splits)

lemma releaseSuccessful_releases:
  "releases (releaseSuccessful cr cs t) = releases t @ map Handle cs"
  unfolding releaseSuccessful_def
  by (induction cs arbitrary: t) simp_all

lemma releaseSuccessful_extends:
  "releaseSuccessful cr cs t = t @ releaseSuccessful cr cs []"
proof (induction cs arbitrary: t)
  case Nil
  then show ?case by (simp add: releaseSuccessful_def)
next
  case (Cons c cs)
  let ?f = "\<lambda>t. snd (release cr (Handle c) (t @ [Logged ''successful-container: '']))"
  have step: "?f t = t @ ?f []"
    using release_extends [of cr "Handle c" "t @ [Logged ''successful-container: '']"]
      release_extends [of cr "Handle c" "[Logged ''successful-container: '']"]
    by simp
  have "releaseSuccessful cr (c # cs) t = releaseSuccessful cr cs (?f t)"
    by (simp add: releaseSuccessful_def)
  also have "\<dots> = ?f t @ releaseSuccessful cr cs []"
    by (rule Cons.IH)
  also have "\<dots> = t @ (?f [] @ releaseSuccessful cr cs [])"
    using step by simp
  also have "?f [] @ releaseSuccessful cr cs [] = releaseSuccessful cr cs (?f [])"
    by (rule Cons.IH [symmetric])
  also have "\<dots> = releaseSuccessful cr (c # cs) []"
    by (simp add: releaseSuccessful_def)
  finally show ?case .
qed

subsection \<open>The highest failed build\<close>

lemma foldl_max_bounds:
  fixes a :: int
  defines "f \<equiv> (\<lambda>m c. if BuildID c > m then BuildID c else m)"
  shows "a \<le> foldl f a cs \<and> (\<forall>c\<in>set cs. BuildID c \<le> foldl f a cs)
         \<and> (foldl f a cs = a \<or> foldl f a cs \<in> BuildID ` set cs)"
proof (induction cs arbitrary: a)
  case Nil
  then show ?case by simp
next
  case (Cons c cs)
  from Cons.IH [of "f a c"] show ?case
    by (auto simp: f_def split: if_splits)
qed

lemma maxFailedBuildID_Max:
  assumes "cs \<noteq> []" and "\<forall>c\<in>set cs. - 1 \<le> BuildID c"
  shows "maxFailedBuildID cs = Max (BuildID ` set cs)"
proof -
  let ?m = "maxFailedBuildID cs"
  have b: "- 1 \<le> ?m" "\<forall>c\<in>set cs. BuildID c \<le> ?m" "?m = - 1 \<or> ?m \<in> BuildID ` set cs"
    using foldl_max_bounds [of "- 1" cs] by (simp_all add: maxFailedBuildID_def)
  obtain c where c: "c \<in> set cs" using assms(1) by (cases cs) auto
  have "?m \<in> BuildID ` set cs"
  proof (cases "?m = - 1")
    case True
    have "BuildID c \<le> - 1" using b(2) c True by auto
    moreover have "- 1 \<le> BuildID c" using assms(2) c by auto
    ultimately have "BuildID c = ?m" using True by simp
    then show ?thesis using c by force
  next
    case False
    then show ?thesis using b(3) by simp
  qed
  then show ?thesis using b(2) by (intro Max_eqI [symmetric]) auto
qed

subsection \<open>The loop over the groups\<close>

lemma releaseJob_releases:
  "releases (releaseJob cr sm j cs t) = releases t @ jobSelection sm j cs"
proof -
  have "releases (foldl (\<lambda>t c. if mapIndex sm j > M \<or> M > BuildID c
                                then snd (release cr (Handle c) t) else t) t cs)
        = releases t @ map Handle (filter (\<lambda>c. mapIndex sm j > M \<or> M > BuildID c) cs)"
    for M
    by (induction cs arbitrary: t) simp_all
  then show ?thesis by (simp add: releaseJob_def jobSelection_def Let_def)
qed

lemma releaseJobs_releases:
  "releases (releaseJobs cr ks fm sm t) = releases t @ jobsSelection fm sm ks"
  unfolding releaseJobs_def jobsSelection_def
  by (induction ks arbitrary: t) (simp_all add: releaseJob_releases split: option.splits)

subsection \<open>The groups\<close>

lemma jobExpired_iff: "jobExpired jcs n \<longleftrightarrow> n \<notin> set (map Name jcs)"
  by (induction jcs) auto

lemma buildFailedMapStep_fst:
  "fst (buildFailedMapStep cr (m, t) c) =
     (if staleByConfiguration cr c \<or> unresolvable cr c then m
      else m(jobOf cr c \<mapsto> (case m (jobOf cr c) of None \<Rightarrow> [c] | Some l \<Rightarrow> l @ [c])))"
  by (auto simp: buildFailedMapStep_def staleByConfiguration_def unresolvable_def jobOf_def
        jobExpired_iff Let_def split: prod.splits option.splits)

lemma buildFailedMapStep_releases:
  "releases (snd (buildFailedMapStep cr (m, t) c)) =
     releases t @ (if staleByConfiguration cr c \<or> unresolvable cr c then [Handle c] else [])"
  by (auto simp: buildFailedMapStep_def staleByConfiguration_def unresolvable_def jobOf_def
        jobExpired_iff Let_def split: prod.splits option.splits)

lemma buildFailedMapStep_prefix:
  "\<exists>u. snd (buildFailedMapStep cr (m, t) c) = t @ u"
proof -
  have r: "\<exists>u. snd (release cr h (t @ v)) = t @ u" for h v
    using release_extends [of cr h "t @ v"] by simp
  show ?thesis
    using r [of _ "[BuildPipeline (PipelineID c), Logged ''no pipeline'']"]
      r [of _ "[BuildPipeline (PipelineID c), FetchConfig (PipelineID c)]"]
      r [of _ "[BuildPipeline (PipelineID c), FetchConfig (PipelineID c),
                FindJobID (BuildID c), Logged ''find-job-id-for-build'']"]
    by (auto simp: buildFailedMapStep_def Let_def split: prod.splits option.splits)
qed

lemma buildFailedMap_fold_fst:
  "fst (foldl (buildFailedMapStep cr) (m, t) cs) j =
     (case m j of
        None \<Rightarrow> (if grouped cr j cs = [] then None else Some (grouped cr j cs))
      | Some l \<Rightarrow> Some (l @ grouped cr j cs))"
proof (induction cs arbitrary: m t)
  case Nil
  then show ?case by (simp add: grouped_def split: option.splits)
next
  case (Cons c cs)
  obtain m' t' where s: "buildFailedMapStep cr (m, t) c = (m', t')"
    by (cases "buildFailedMapStep cr (m, t) c")
  have m': "m' = (if staleByConfiguration cr c \<or> unresolvable cr c then m
      else m(jobOf cr c \<mapsto> (case m (jobOf cr c) of None \<Rightarrow> [c] | Some l \<Rightarrow> l @ [c])))"
    using buildFailedMapStep_fst [of cr m t c] s by simp
  show ?case
    using Cons.IH [of m' t'] s m'
    by (auto simp: grouped_def split: option.splits)
qed

lemma buildFailedMap_fold_releases:
  "releases (snd (foldl (buildFailedMapStep cr) (m, t) cs)) =
     releases t @ map Handle (filter (\<lambda>c. staleByConfiguration cr c \<or> unresolvable cr c) cs)"
proof (induction cs arbitrary: m t)
  case Nil
  then show ?case by simp
next
  case (Cons c cs)
  obtain m' t' where s: "buildFailedMapStep cr (m, t) c = (m', t')"
    by (cases "buildFailedMapStep cr (m, t) c")
  show ?case
    using Cons.IH [of m' t'] s buildFailedMapStep_releases [of cr m t c]
    by simp
qed

lemma buildFailedMap_fold_prefix:
  "\<exists>u. snd (foldl (buildFailedMapStep cr) (m, t) cs) = t @ u"
proof (induction cs arbitrary: m t)
  case Nil
  then show ?case by simp
next
  case (Cons c cs)
  obtain m' t' where s: "buildFailedMapStep cr (m, t) c = (m', t')"
    by (cases "buildFailedMapStep cr (m, t) c")
  obtain u where u: "t' = t @ u"
    using buildFailedMapStep_prefix [of cr m t c] s by auto
  obtain v where "snd (foldl (buildFailedMapStep cr) (m', t') cs) = t' @ v"
    using Cons.IH [of m' t'] by auto
  then show ?case using s u by simp
qed

lemma buildFailedMap_group:
  "fst (buildFailedMap cr cs t) j =
     (if grouped cr j cs = [] then None else Some (grouped cr j cs))"
  by (simp add: buildFailedMap_def buildFailedMap_fold_fst)

lemma buildFailedMap_fst: "fst (buildFailedMap cr cs t) = fst (buildFailedMap cr cs [])"
  by (rule ext) (simp add: buildFailedMap_group)

lemma buildFailedMap_releases:
  "releases (snd (buildFailedMap cr cs t)) =
     releases t @ map Handle (filter (\<lambda>c. staleByConfiguration cr c \<or> unresolvable cr c) cs)"
  by (simp add: buildFailedMap_def buildFailedMap_fold_releases)

lemma buildFailedMap_prefix: "\<exists>u. snd (buildFailedMap cr cs t) = t @ u"
  by (simp add: buildFailedMap_def buildFailedMap_fold_prefix)

subsection \<open>The aggregate\<close>

lemma buildSuccessMapStep_fst:
  "fst (buildSuccessMapStep cr (m, t) c) =
     (if unresolvable cr c then m
      else if BuildID c > mapIndex m (jobOf cr c) then m(jobOf cr c \<mapsto> BuildID c) else m)"
  by (auto simp: buildSuccessMapStep_def unresolvable_def jobOf_def Let_def split: prod.splits)

lemma buildSuccessMapStep_releases:
  "releases (snd (buildSuccessMapStep cr (m, t) c)) =
     releases t @ (if unresolvable cr c then [Handle c] else [])"
  by (auto simp: buildSuccessMapStep_def unresolvable_def jobOf_def Let_def split: prod.splits)

lemma buildSuccessMapStep_prefix:
  "\<exists>u. snd (buildSuccessMapStep cr (m, t) c) = t @ u"
  using release_extends [of cr "Handle c"
      "t @ [FindJobID (BuildID c), Logged ''find-job-id-for-build'']"]
  by (auto simp: buildSuccessMapStep_def Let_def split: prod.splits)

lemma buildSuccessMap_fold_fst:
  "fst (foldl (buildSuccessMapStep cr) (m, t) cs) = aggregate cr m cs"
proof (induction cs arbitrary: m t)
  case Nil
  then show ?case by (simp add: aggregate_def)
next
  case (Cons c cs)
  obtain m' t' where s: "buildSuccessMapStep cr (m, t) c = (m', t')"
    by (cases "buildSuccessMapStep cr (m, t) c")
  have m': "m' = (if unresolvable cr c then m
      else if BuildID c > mapIndex m (jobOf cr c) then m(jobOf cr c \<mapsto> BuildID c) else m)"
    using buildSuccessMapStep_fst [of cr m t c] s by simp
  have "fst (foldl (buildSuccessMapStep cr) (m, t) (c # cs)) = aggregate cr m' cs"
    using Cons.IH [of m' t'] s by simp
  also have "\<dots> = aggregate cr m (c # cs)"
    unfolding m' by (simp add: aggregate_def)
  finally show ?case .
qed

lemma buildSuccessMap_fold_releases:
  "releases (snd (foldl (buildSuccessMapStep cr) (m, t) cs)) =
     releases t @ map Handle (filter (unresolvable cr) cs)"
proof (induction cs arbitrary: m t)
  case Nil
  then show ?case by simp
next
  case (Cons c cs)
  obtain m' t' where s: "buildSuccessMapStep cr (m, t) c = (m', t')"
    by (cases "buildSuccessMapStep cr (m, t) c")
  show ?case
    using Cons.IH [of m' t'] s buildSuccessMapStep_releases [of cr m t c]
    by simp
qed

lemma buildSuccessMap_fold_prefix:
  "\<exists>u. snd (foldl (buildSuccessMapStep cr) (m, t) cs) = t @ u"
proof (induction cs arbitrary: m t)
  case Nil
  then show ?case by simp
next
  case (Cons c cs)
  obtain m' t' where s: "buildSuccessMapStep cr (m, t) c = (m', t')"
    by (cases "buildSuccessMapStep cr (m, t) c")
  obtain u where u: "t' = t @ u"
    using buildSuccessMapStep_prefix [of cr m t c] s by auto
  obtain v where "snd (foldl (buildSuccessMapStep cr) (m', t') cs) = t' @ v"
    using Cons.IH [of m' t'] by auto
  then show ?case using s u by simp
qed

lemma buildSuccessMap_fst: "fst (buildSuccessMap cr cs t) = aggregate cr Map.empty cs"
  by (simp add: buildSuccessMap_def buildSuccessMap_fold_fst aggregate_def)

lemma buildSuccessMap_releases:
  "releases (snd (buildSuccessMap cr cs t)) =
     releases t @ map Handle (filter (unresolvable cr) cs)"
  by (simp add: buildSuccessMap_def buildSuccessMap_fold_releases)


lemma aggregate_filter:
  "aggregate cr m cs = aggregate cr m (filter (\<lambda>c. \<not> unresolvable cr c) cs)"
  unfolding aggregate_def
  by (induction cs arbitrary: m) simp_all

subsection \<open>The pass as a whole\<close>

lemma Run_result:
  "fst (Run cr order) = snd (FindContainersFromUnsuccessfulBuildsWithInfiniteTTL (db cr))"
  by (auto simp: Run_def Let_def split: prod.splits)

lemma Run_releases:
  assumes "FindContainersFromSuccessfulBuildsWithInfiniteTTL (db cr) = (succ, serr)"
      and "FindContainersFromUnsuccessfulBuildsWithInfiniteTTL (db cr) = (failed, ferr)"
  shows "releases (snd (Run cr order)) =
           (if serr = None then map Handle succ else []) @
           (if ferr = None then
              map Handle (filter (\<lambda>c. staleByConfiguration cr c \<or> unresolvable cr c) failed) @
              map Handle (filter (unresolvable cr) succ) @
              jobsSelection (fst (buildFailedMap cr failed [])) (aggregate cr Map.empty succ)
                (order (fst (buildFailedMap cr failed [])))
            else [])"
proof -
  let ?t1 = "[FindSuccessful, Logged ''running-container-reaper'']"
  let ?t2 = "if serr \<noteq> None then ?t1 @ [Logged ''failed-to-find-successful-containers'']
             else releaseSuccessful cr succ ?t1"
  let ?t3 = "?t2 @ [FindUnsuccessful]"
  have r3: "releases ?t3 = (if serr = None then map Handle succ else [])"
    by (simp add: releaseSuccessful_releases)
  show ?thesis
  proof (cases ferr)
    case (Some e)
    have "snd (Run cr order) = ?t3 @ [Logged ''failed-to-find-unsuccessful-containers'']"
      using assms Some by (simp add: Run_def Let_def)
    then have "releases (snd (Run cr order)) = releases ?t3"
      by simp
    then show ?thesis using Some r3 by simp
  next
    case None
    then have True: "ferr = None" .
    obtain fm t4 where f: "buildFailedMap cr failed ?t3 = (fm, t4)"
      by (cases "buildFailedMap cr failed ?t3")
    obtain sm t5 where s: "buildSuccessMap cr succ t4 = (sm, t5)"
      by (cases "buildSuccessMap cr succ t4")
    have fm: "fm = fst (buildFailedMap cr failed [])"
      using f buildFailedMap_fst [of cr failed ?t3] by simp
    have sm: "sm = aggregate cr Map.empty succ"
      using s buildSuccessMap_fst [of cr succ t4] by simp
    have r4: "releases t4 = releases ?t3 @
        map Handle (filter (\<lambda>c. staleByConfiguration cr c \<or> unresolvable cr c) failed)"
      using f buildFailedMap_releases [of cr failed ?t3] by simp
    have r5: "releases t5 = releases t4 @ map Handle (filter (unresolvable cr) succ)"
      using s buildSuccessMap_releases [of cr succ t4] by simp
    have "snd (Run cr order) = releaseJobs cr (order fm) fm sm t5"
      using assms True f s by (simp add: Run_def Let_def)
    then show ?thesis
      using True r3 r4 r5 fm sm by (simp add: releaseJobs_releases)
  qed
qed

subsection \<open>Every function only extends the trace\<close>

lemma releaseJob_prefix: "\<exists>u. releaseJob cr sm j cs t = t @ u"
proof -
  have "\<exists>u. foldl (\<lambda>t c. if mapIndex sm j > M \<or> M > BuildID c
                           then snd (release cr (Handle c) t) else t) t cs = t @ u" for M
  proof (induction cs arbitrary: t)
    case Nil
    then show ?case by simp
  next
    case (Cons c cs)
    let ?t' = "if mapIndex sm j > M \<or> M > BuildID c then snd (release cr (Handle c) t) else t"
    obtain u where u: "?t' = t @ u"
      using release_extends [of cr "Handle c" t] by (cases "mapIndex sm j > M \<or> M > BuildID c") auto
    obtain v where "foldl (\<lambda>t c. if mapIndex sm j > M \<or> M > BuildID c
                           then snd (release cr (Handle c) t) else t) ?t' cs = ?t' @ v"
      using Cons.IH [of ?t'] by auto
    then show ?case using u by simp
  qed
  then show ?thesis by (simp add: releaseJob_def Let_def)
qed

lemma releaseJobs_prefix: "\<exists>u. releaseJobs cr ks fm sm t = t @ u"
  unfolding releaseJobs_def
proof (induction ks arbitrary: t)
  case Nil
  then show ?case by simp
next
  case (Cons k ks)
  let ?t' = "case fm k of None \<Rightarrow> t | Some cs \<Rightarrow> releaseJob cr sm k cs t"
  obtain u where u: "?t' = t @ u"
    using releaseJob_prefix [of cr sm k _ t] by (cases "fm k") auto
  obtain v where "foldl (\<lambda>t jobID. case fm jobID of None \<Rightarrow> t
        | Some jobContainers \<Rightarrow> releaseJob cr sm jobID jobContainers t) ?t' ks = ?t' @ v"
    using Cons [of ?t'] by auto
  then show ?case using u by simp
qed


subsection \<open>Where entries and selections come from\<close>

lemma count_list_distinct:
  "distinct xs \<Longrightarrow> x \<in> set xs \<Longrightarrow> count_list xs x = 1"
  by (induction xs) auto

lemma group_facts:
  assumes "fst (buildFailedMap cr failedContainers t0) jobID = Some jobContainers"
  shows "jobContainers \<noteq> []" and "set jobContainers \<subseteq> set failedContainers"
    and "jobContainers = grouped cr jobID failedContainers"
  using assms by (auto simp: buildFailedMap_group grouped_def split: if_splits)

lemma group_max:
  assumes "fst (buildFailedMap cr failedContainers t0) jobID = Some jobContainers"
      and "\<forall>c\<in>set failedContainers. 0 < BuildID c"
  shows "maxFailedBuildID jobContainers = Max (BuildID ` set jobContainers)"
    and "0 < Max (BuildID ` set jobContainers)"
proof -
  have ne: "jobContainers \<noteq> []" and sub: "set jobContainers \<subseteq> set failedContainers"
    using group_facts [OF assms(1)] by simp_all
  have pos: "\<forall>c\<in>set jobContainers. 0 < BuildID c"
    using sub assms(2) by auto
  then show "maxFailedBuildID jobContainers = Max (BuildID ` set jobContainers)"
    using ne by (intro maxFailedBuildID_Max) auto
  obtain c where "c \<in> set jobContainers" using ne by (cases jobContainers) auto
  then have "0 < BuildID c" and "BuildID c \<le> Max (BuildID ` set jobContainers)"
    using pos by auto
  then show "0 < Max (BuildID ` set jobContainers)" by linarith
qed

lemma aggregate_entry:
  "aggregate cr m cs j = Some v \<Longrightarrow>
     m j = Some v \<or> (\<exists>c\<in>set cs. \<not> unresolvable cr c \<and> jobOf cr c = j \<and> BuildID c = v)"
proof (induction cs arbitrary: m)
  case Nil
  then show ?case by (simp add: aggregate_def)
next
  case (Cons c cs)
  let ?m' = "if unresolvable cr c then m
             else if BuildID c > mapIndex m (jobOf cr c) then m(jobOf cr c \<mapsto> BuildID c) else m"
  have "aggregate cr ?m' cs j = Some v"
    using Cons.prems by (simp add: aggregate_def)
  then have "?m' j = Some v \<or> (\<exists>c\<in>set cs. \<not> unresolvable cr c \<and> jobOf cr c = j \<and> BuildID c = v)"
    by (rule Cons.IH)
  then show ?case
    by (auto split: if_splits)
qed

lemma jobsSelection_subset:
  "set (jobsSelection (fst (buildFailedMap cr failed t)) sm ks) \<subseteq> Handle ` set failed"
proof
  fix h
  assume "h \<in> set (jobsSelection (fst (buildFailedMap cr failed t)) sm ks)"
  then obtain j where
    "h \<in> set (case fst (buildFailedMap cr failed t) j of None \<Rightarrow> []
                | Some cs \<Rightarrow> jobSelection sm j cs)"
    by (auto simp: jobsSelection_def)
  then obtain cs where g: "fst (buildFailedMap cr failed t) j = Some cs"
    and h: "h \<in> set (jobSelection sm j cs)"
    by (cases "fst (buildFailedMap cr failed t) j") auto
  have "set cs \<subseteq> set failed"
    using group_facts(2) [OF g] .
  then show "h \<in> Handle ` set failed"
    using h by (auto simp: jobSelection_def)
qed

subsection \<open>The decision of a pass\<close>

lemma aggregate_mapIndex:
  "mapIndex (aggregate cr m cs) j =
     fold max (map BuildID (filter (\<lambda>c. \<not> unresolvable cr c \<and> jobOf cr c = j) cs))
       (mapIndex m j)"
proof (induction cs arbitrary: m)
  case Nil
  then show ?case by (simp add: aggregate_def)
next
  case (Cons c cs)
  let ?m' = "if unresolvable cr c then m
             else if BuildID c > mapIndex m (jobOf cr c) then m(jobOf cr c \<mapsto> BuildID c) else m"
  have unfold: "aggregate cr m (c # cs) = aggregate cr ?m' cs"
    by (simp add: aggregate_def)
  have m': "mapIndex ?m' j =
      (if \<not> unresolvable cr c \<and> jobOf cr c = j then max (BuildID c) (mapIndex m j)
       else mapIndex m j)"
    by (auto simp: mapIndex_def max_def)
  show ?case
    unfolding unfold Cons.IH [of ?m'] m' by simp
qed

lemma buildSuccessMap_highest:
  "mapIndex (fst (buildSuccessMap cr cs t)) j = highestSuccessfulBuildID cr cs j"
proof -
  have "mapIndex (aggregate cr Map.empty cs) j =
      fold max (map BuildID (filter (\<lambda>c. \<not> unresolvable cr c \<and> jobOf cr c = j) cs)) 0"
    using aggregate_mapIndex [of cr Map.empty cs j] by (simp add: mapIndex_def)
  moreover have "highestSuccessfulBuildID cr cs j =
      fold max (map BuildID (filter (\<lambda>c. \<not> unresolvable cr c \<and> jobOf cr c = j) cs)) 0"
    unfolding highestSuccessfulBuildID_def by (rule Max.set_eq_fold)
  ultimately show ?thesis
    by (simp add: buildSuccessMap_fst)
qed

lemma highest_absent:
  assumes "fst (buildSuccessMap cr cs t) j = None"
  shows "highestSuccessfulBuildID cr cs j = 0"
  using buildSuccessMap_highest [of cr cs t j] assms by (simp add: mapIndex_def)

lemma Run_releases_groups:
  assumes "FindContainersFromSuccessfulBuildsWithInfiniteTTL (db cr) = (succ, serr)"
      and "FindContainersFromUnsuccessfulBuildsWithInfiniteTTL (db cr) = (failed, None)"
      and "\<forall>c\<in>set failed. 0 < BuildID c"
  shows "releases (snd (Run cr order)) =
           (if serr = None then map Handle succ else []) @
           map Handle (filter (\<lambda>c. staleByConfiguration cr c \<or> unresolvable cr c) failed) @
           map Handle (filter (unresolvable cr) succ) @
           concat
             (map (\<lambda>jobID.
                     case fst (buildFailedMap cr failed []) jobID of
                       None \<Rightarrow> []
                     | Some jobContainers \<Rightarrow>
                         map Handle
                           (filter (\<lambda>c. highestSuccessfulBuildID cr succ jobID
                                          > Max (BuildID ` set jobContainers)
                                        \<or> Max (BuildID ` set jobContainers) > BuildID c)
                              jobContainers))
                (order (fst (buildFailedMap cr failed []))))"
proof -
  let ?fm = "fst (buildFailedMap cr failed [])"
  let ?sm = "aggregate cr Map.empty succ"
  have hi: "mapIndex ?sm j = highestSuccessfulBuildID cr succ j" for j
    using buildSuccessMap_highest [of cr succ "[]" j] by (simp add: buildSuccessMap_fst)
  have sel: "(case ?fm j of None \<Rightarrow> [] | Some cs \<Rightarrow> jobSelection ?sm j cs) =
             (case ?fm j of None \<Rightarrow> []
              | Some cs \<Rightarrow>
                  map Handle
                    (filter (\<lambda>c. highestSuccessfulBuildID cr succ j > Max (BuildID ` set cs)
                                 \<or> Max (BuildID ` set cs) > BuildID c) cs))"
    for j
  proof (cases "?fm j")
    case None
    then show ?thesis by simp
  next
    case (Some cs)
    have "maxFailedBuildID cs = Max (BuildID ` set cs)"
      using group_max [OF Some assms(3)] by simp
    then show ?thesis
      using Some by (simp add: jobSelection_def hi)
  qed
  have "jobsSelection ?fm ?sm ks =
        concat (map (\<lambda>j. case ?fm j of None \<Rightarrow> []
                          | Some cs \<Rightarrow>
                              map Handle
                                (filter (\<lambda>c. highestSuccessfulBuildID cr succ j
                                               > Max (BuildID ` set cs)
                                             \<or> Max (BuildID ` set cs) > BuildID c) cs))
                  ks)" for ks
    unfolding jobsSelection_def using sel by simp
  then show ?thesis
    using Run_releases [OF assms(1,2), of order] by simp
qed

lemma Run_group_released_if:
  assumes "FindContainersFromSuccessfulBuildsWithInfiniteTTL (db cr) = (succ, serr)"
      and "FindContainersFromUnsuccessfulBuildsWithInfiniteTTL (db cr) = (failed, None)"
      and "\<forall>c\<in>set failed. 0 < BuildID c"
      and "rangeOrder (order (fst (buildFailedMap cr failed []))) (fst (buildFailedMap cr failed []))"
      and "fst (buildFailedMap cr failed []) j = Some cs"
      and "c \<in> set cs"
      and "highestSuccessfulBuildID cr succ j > Max (BuildID ` set cs)
           \<or> Max (BuildID ` set cs) > BuildID c"
  shows "Handle c \<in> set (releases (snd (Run cr order)))"
proof -
  let ?fm = "fst (buildFailedMap cr failed [])"
  let ?seg = "\<lambda>jobID. case ?fm jobID of
                       None \<Rightarrow> []
                     | Some jobContainers \<Rightarrow>
                         map Handle
                           (filter (\<lambda>c. highestSuccessfulBuildID cr succ jobID
                                          > Max (BuildID ` set jobContainers)
                                        \<or> Max (BuildID ` set jobContainers) > BuildID c)
                              jobContainers)"
  have "j \<in> set (order ?fm)"
    using assms(4,5) by (auto simp: rangeOrder_def)
  moreover have "Handle c \<in> set (?seg j)"
    using assms(5,6,7) by simp
  ultimately have "Handle c \<in> set (concat (map ?seg (order ?fm)))"
    by auto
  then show ?thesis
    unfolding Run_releases_groups [OF assms(1,2,3)] by simp
qed

lemma Run_group_released_only_if:
  assumes "FindContainersFromSuccessfulBuildsWithInfiniteTTL (db cr) = (succ, serr)"
      and "FindContainersFromUnsuccessfulBuildsWithInfiniteTTL (db cr) = (failed, None)"
      and "\<forall>c\<in>set failed. 0 < BuildID c"
      and "distinct (map Handle (succ @ failed))"
      and "fst (buildFailedMap cr failed []) j = Some cs"
      and "c \<in> set cs"
      and "Handle c \<in> set (releases (snd (Run cr order)))"
  shows "highestSuccessfulBuildID cr succ j > Max (BuildID ` set cs)
           \<or> Max (BuildID ` set cs) > BuildID c"
proof -
  let ?fm = "fst (buildFailedMap cr failed [])"
  let ?seg = "\<lambda>jobID. case ?fm jobID of
                       None \<Rightarrow> []
                     | Some jobContainers \<Rightarrow>
                         map Handle
                           (filter (\<lambda>c. highestSuccessfulBuildID cr succ jobID
                                          > Max (BuildID ` set jobContainers)
                                        \<or> Max (BuildID ` set jobContainers) > BuildID c)
                              jobContainers)"
  have cs: "cs = grouped cr j failed"
    using group_facts(3) [OF assms(5)] .
  have c: "c \<in> set failed" "\<not> staleByConfiguration cr c" "\<not> unresolvable cr c" "jobOf cr c = j"
    using assms(6) cs by (simp_all add: grouped_def)
  have inj: "inj_on Handle (set failed)"
    and disj: "Handle ` set succ \<inter> Handle ` set failed = {}"
    using assms(4) by (simp_all add: distinct_map)
  have same: "c' = c" if "c' \<in> set failed" "Handle c' = Handle c" for c'
    using inj that c(1) by (auto dest: inj_onD)
  have notsucc: "Handle c \<notin> Handle ` set succ"
    using disj c(1) by blast
  have notA: "Handle c \<notin> set (if serr = None then map Handle succ else [])"
    using notsucc by auto
  have notC: "Handle c \<notin> set (map Handle (filter (unresolvable cr) succ))"
    using notsucc by auto
  have notB: "Handle c \<notin> set (map Handle
                (filter (\<lambda>c. staleByConfiguration cr c \<or> unresolvable cr c) failed))"
  proof
    assume "Handle c \<in> set (map Handle
                (filter (\<lambda>c. staleByConfiguration cr c \<or> unresolvable cr c) failed))"
    then obtain c' where "c' \<in> set failed" "staleByConfiguration cr c' \<or> unresolvable cr c'"
      "Handle c' = Handle c"
      by auto
    then show False using same c(2,3) by blast
  qed
  define D where "D = concat (map ?seg (order ?fm))"
  have "releases (snd (Run cr order)) =
          (if serr = None then map Handle succ else []) @
          map Handle (filter (\<lambda>c. staleByConfiguration cr c \<or> unresolvable cr c) failed) @
          map Handle (filter (unresolvable cr) succ) @ D"
    unfolding D_def by (rule Run_releases_groups [OF assms(1,2,3)])
  then have "Handle c \<in> set D"
    using assms(7) notA notB notC by (simp only: set_append Un_iff) blast
  then obtain j' where j': "Handle c \<in> set (?seg j')"
    unfolding D_def by auto
  then obtain cs' where g': "?fm j' = Some cs'"
    by (cases "?fm j'") auto
  then obtain c' where c': "c' \<in> set cs'" "Handle c' = Handle c"
    "highestSuccessfulBuildID cr succ j' > Max (BuildID ` set cs')
       \<or> Max (BuildID ` set cs') > BuildID c'"
    using j' by auto
  have cs': "cs' = grouped cr j' failed"
    using group_facts(3) [OF g'] .
  have "c' \<in> set failed" and "jobOf cr c' = j'"
    using c'(1) cs' by (simp_all add: grouped_def)
  then have "c' = c" and "j' = j"
    using same c'(2) c(4) by auto
  then have "cs' = cs" using g' assms(5) by simp
  then show ?thesis using c'(3) \<open>c' = c\<close> \<open>j' = j\<close> by simp
qed

section \<open>The claims\<close>

text \<open>
  Below, a container is \<^emph>\<open>released\<close> when the release operation is invoked on its
  handle, and a \<^emph>\<open>real\<close> build identifier is a positive one: the registry numbers
  builds from 1, and 0 is what Go reads for a job absent from the aggregate.
\<close>

subsection \<open>C1: the decision for each job\<close>

text \<open>
  C1. In a pass whose query for the unsuccessful-build candidates succeeds, every job
  with a group of unsuccessful-build containers (a group is never empty) is visited
  once, and the pass releases, after the containers of steps 1 and 2 and group by
  group, exactly the containers \<open>c\<close> of each group with
  \<open>maxSuccessfulBuildID > maxFailedBuildID\<close> or \<open>maxFailedBuildID > BuildID c\<close>.
  Here \<open>maxFailedBuildID\<close> is the maximum build identifier of the group, and
  \<open>maxSuccessfulBuildID\<close> is what the aggregate built by \<open>buildSuccessMap\<close> reads for
  the job: the highest build identifier among the successful candidates of the job, and
  0, lower than every real build identifier, when the job is absent. Where handles
  identify containers, a container of a group is released by the pass if and only if
  the test holds for it, and is retained otherwise. If
  \<open>maxSuccessfulBuildID > maxFailedBuildID\<close>, every container of the group is released.
\<close>

theorem release_iff_succeeded_or_superseded:
  assumes "FindContainersFromSuccessfulBuildsWithInfiniteTTL (db cr) = (successfulContainers, serr)"
      and "FindContainersFromUnsuccessfulBuildsWithInfiniteTTL (db cr) = (failedContainers, None)"
      and "\<forall>c\<in>set failedContainers. 0 < BuildID c"
      and "rangeOrder (order (fst (buildFailedMap cr failedContainers [])))
             (fst (buildFailedMap cr failedContainers []))"
      and "fst (buildFailedMap cr failedContainers []) jobID = Some jobContainers"
  shows "jobContainers \<noteq> []
       \<and> count_list (order (fst (buildFailedMap cr failedContainers []))) jobID = 1
       \<and> mapIndex (fst (buildSuccessMap cr successfulContainers t)) jobID
           = highestSuccessfulBuildID cr successfulContainers jobID
       \<and> (fst (buildSuccessMap cr successfulContainers t) jobID = None \<longrightarrow>
            (\<forall>c\<in>set jobContainers.
               highestSuccessfulBuildID cr successfulContainers jobID < BuildID c))
       \<and> releases (snd (Run cr order)) =
           (if serr = None then map Handle successfulContainers else []) @
           map Handle
             (filter (\<lambda>c. staleByConfiguration cr c \<or> unresolvable cr c) failedContainers) @
           map Handle (filter (unresolvable cr) successfulContainers) @
           concat
             (map (\<lambda>j.
                     case fst (buildFailedMap cr failedContainers []) j of
                       None \<Rightarrow> []
                     | Some cs \<Rightarrow>
                         map Handle
                           (filter (\<lambda>c. highestSuccessfulBuildID cr successfulContainers j
                                          > Max (BuildID ` set cs)
                                        \<or> Max (BuildID ` set cs) > BuildID c)
                              cs))
                (order (fst (buildFailedMap cr failedContainers []))))
       \<and> (distinct (map Handle (successfulContainers @ failedContainers)) \<longrightarrow>
            (\<forall>c\<in>set jobContainers.
               Handle c \<in> set (releases (snd (Run cr order))) \<longleftrightarrow>
                 highestSuccessfulBuildID cr successfulContainers jobID
                   > Max (BuildID ` set jobContainers)
                 \<or> Max (BuildID ` set jobContainers) > BuildID c))
       \<and> (highestSuccessfulBuildID cr successfulContainers jobID
             > Max (BuildID ` set jobContainers) \<longrightarrow>
            (\<forall>c\<in>set jobContainers. Handle c \<in> set (releases (snd (Run cr order)))))"
proof -
  let ?fm = "fst (buildFailedMap cr failedContainers [])"
  let ?hi = "highestSuccessfulBuildID cr successfulContainers jobID"
  let ?M = "Max (BuildID ` set jobContainers)"
  have ne: "jobContainers \<noteq> []" and sub: "set jobContainers \<subseteq> set failedContainers"
    using group_facts [OF assms(5)] by simp_all
  have "jobID \<in> set (order ?fm)" and "distinct (order ?fm)"
    using assms(4,5) by (auto simp: rangeOrder_def)
  then have once: "count_list (order ?fm) jobID = 1"
    by (simp add: count_list_distinct)
  have hi: "mapIndex (fst (buildSuccessMap cr successfulContainers t)) jobID = ?hi"
    by (rule buildSuccessMap_highest)
  have absent: "fst (buildSuccessMap cr successfulContainers t) jobID = None \<longrightarrow>
            (\<forall>c\<in>set jobContainers. ?hi < BuildID c)"
    using highest_absent [of cr successfulContainers t jobID] sub assms(3) by auto
  note list = Run_releases_groups [OF assms(1,2,3), of order]
  have "if": "Handle c \<in> set (releases (snd (Run cr order)))"
    if "c \<in> set jobContainers" "?hi > ?M \<or> ?M > BuildID c" for c
    using Run_group_released_if [where order = order, OF assms(1,2,3,4,5) that] .
  have only_if: "?hi > ?M \<or> ?M > BuildID c"
    if "distinct (map Handle (successfulContainers @ failedContainers))"
      "c \<in> set jobContainers" "Handle c \<in> set (releases (snd (Run cr order)))" for c
    using Run_group_released_only_if [where order = order, OF assms(1,2,3) that(1) assms(5) that(2,3)] .
  have iff: "distinct (map Handle (successfulContainers @ failedContainers)) \<longrightarrow>
            (\<forall>c\<in>set jobContainers.
               Handle c \<in> set (releases (snd (Run cr order))) \<longleftrightarrow> ?hi > ?M \<or> ?M > BuildID c)"
    using "if" only_if by blast
  have all: "?hi > ?M \<longrightarrow>
            (\<forall>c\<in>set jobContainers. Handle c \<in> set (releases (snd (Run cr order))))"
    using "if" by blast
  show ?thesis
    using ne once hi absent list iff all by (intro conjI)
qed

theorem release_iff_succeeded_or_superseded_witness:
  "FindContainersFromSuccessfulBuildsWithInfiniteTTL
     (db (fleet (resolveBelow 100) ([container ''s9'' 9 ''unit''], None)
            ([container ''h10'' 10 ''unit'', container ''h12'' 12 ''unit''], None)))
     = ([container ''s9'' 9 ''unit''], None)
   \<and> FindContainersFromUnsuccessfulBuildsWithInfiniteTTL
     (db (fleet (resolveBelow 100) ([container ''s9'' 9 ''unit''], None)
            ([container ''h10'' 10 ''unit'', container ''h12'' 12 ''unit''], None)))
     = ([container ''h10'' 10 ''unit'', container ''h12'' 12 ''unit''], None)
   \<and> 0 < BuildID (container ''h10'' 10 ''unit'') \<and> 0 < BuildID (container ''h12'' 12 ''unit'')
   \<and> rangeOrder
       (visit [1]
          (fst (buildFailedMap
                  (fleet (resolveBelow 100) ([container ''s9'' 9 ''unit''], None)
                     ([container ''h10'' 10 ''unit'', container ''h12'' 12 ''unit''], None))
                  [container ''h10'' 10 ''unit'', container ''h12'' 12 ''unit''] [])))
       (fst (buildFailedMap
               (fleet (resolveBelow 100) ([container ''s9'' 9 ''unit''], None)
                  ([container ''h10'' 10 ''unit'', container ''h12'' 12 ''unit''], None))
               [container ''h10'' 10 ''unit'', container ''h12'' 12 ''unit''] []))
   \<and> fst (buildFailedMap
          (fleet (resolveBelow 100) ([container ''s9'' 9 ''unit''], None)
             ([container ''h10'' 10 ''unit'', container ''h12'' 12 ''unit''], None))
          [container ''h10'' 10 ''unit'', container ''h12'' 12 ''unit''] []) 1
     = Some [container ''h10'' 10 ''unit'', container ''h12'' 12 ''unit'']
   \<and> distinct (map Handle ([container ''s9'' 9 ''unit'']
                              @ [container ''h10'' 10 ''unit'', container ''h12'' 12 ''unit'']))
   \<and> highestSuccessfulBuildID
       (fleet (resolveBelow 100) ([container ''s9'' 9 ''unit''], None)
          ([container ''h10'' 10 ''unit'', container ''h12'' 12 ''unit''], None))
       [container ''s9'' 9 ''unit''] 1 = 9
   \<and> ''h10'' \<in> set (releases (snd (Run
         (fleet (resolveBelow 100) ([container ''s9'' 9 ''unit''], None)
            ([container ''h10'' 10 ''unit'', container ''h12'' 12 ''unit''], None))
         (visit [1]))))
   \<and> ''h12'' \<notin> set (releases (snd (Run
         (fleet (resolveBelow 100) ([container ''s9'' 9 ''unit''], None)
            ([container ''h10'' 10 ''unit'', container ''h12'' 12 ''unit''], None))
         (visit [1]))))"
proof -
  let ?ss = "[container ''s9'' 9 ''unit'']"
  let ?cs = "[container ''h10'' 10 ''unit'', container ''h12'' 12 ''unit'']"
  let ?cr = "fleet (resolveBelow 100) (?ss, None) (?cs, None)"
  have s: "FindContainersFromSuccessfulBuildsWithInfiniteTTL (db ?cr) = (?ss, None)"
    and f: "FindContainersFromUnsuccessfulBuildsWithInfiniteTTL (db ?cr) = (?cs, None)"
    by (simp_all add: fleet_def)
  have p: "\<forall>c\<in>set ?cs. 0 < BuildID c"
    by (simp add: container_def)
  have g: "fst (buildFailedMap ?cr ?cs []) 1 = Some ?cs"
    by (simp add: buildFailedMap_def buildFailedMapStep_def fleet_def container_def
          resolveBelow_def Let_def)
  have "dom (fst (buildFailedMap ?cr ?cs [])) = {1}"
    by (simp add: buildFailedMap_def buildFailedMapStep_def fleet_def container_def
          resolveBelow_def Let_def)
  then have r: "rangeOrder (visit [1] (fst (buildFailedMap ?cr ?cs []))) (fst (buildFailedMap ?cr ?cs []))"
    by (simp add: rangeOrder_def visit_def)
  have d: "distinct (map Handle (?ss @ ?cs))"
    by (simp add: container_def)
  have h: "highestSuccessfulBuildID ?cr ?ss 1 = 9"
    by (simp add: highestSuccessfulBuildID_def unresolvable_def jobOf_def fleet_def
          container_def resolveBelow_def)
  have iff: "\<forall>c\<in>set ?cs.
      Handle c \<in> set (releases (snd (Run ?cr (visit [1])))) \<longleftrightarrow>
        highestSuccessfulBuildID ?cr ?ss 1 > Max (BuildID ` set ?cs)
        \<or> Max (BuildID ` set ?cs) > BuildID c"
    using release_iff_succeeded_or_superseded
      [where order = "visit [1]" and t = "[]", OF s f p r g] d
    by blast
  have "''h10'' \<in> set (releases (snd (Run ?cr (visit [1]))))"
    and "''h12'' \<notin> set (releases (snd (Run ?cr (visit [1]))))"
    using iff unfolding h by (simp_all add: container_def)
  then show ?thesis
    using s f p r g d h by simp
qed

subsection \<open>C2: what a job keeps\<close>

lemma filter_key_unique:
  "distinct (map f cs) \<Longrightarrow> length (filter (\<lambda>c. f c = M) cs) \<le> 1"
proof (induction cs)
  case Nil
  then show ?case by simp
next
  case (Cons c cs)
  show ?case
  proof (cases "f c = M")
    case True
    have "f c \<notin> f ` set cs"
      using Cons.prems by simp
    then have "\<forall>x\<in>set cs. f x \<noteq> M"
      using True by blast
    then have "filter (\<lambda>c. f c = M) cs = []"
      by (simp add: filter_empty_conv)
    then show ?thesis using True by simp
  next
    case False
    then show ?thesis using Cons by simp
  qed
qed

text \<open>
  C2, as stated, fails. One build runs several steps, each in a container of its own, so
  a group can hold several containers of the highest failed build. Here job 1 has the
  containers \<open>a\<close> and \<open>b\<close> of its failed build 12 and no success on record: both are
  in the group and the pass releases neither, so two containers are retained.
\<close>

theorem two_containers_of_one_build_retained:
  "fst (buildFailedMap
          (fleet (resolveBelow 100) ([], None)
             ([container ''a'' 12 ''unit'', container ''b'' 12 ''unit''], None))
          [container ''a'' 12 ''unit'', container ''b'' 12 ''unit''] []) 1
     = Some [container ''a'' 12 ''unit'', container ''b'' 12 ''unit'']
   \<and> fst (buildSuccessMap
          (fleet (resolveBelow 100) ([], None)
             ([container ''a'' 12 ''unit'', container ''b'' 12 ''unit''], None))
          [] []) 1 = None
   \<and> releases (snd (Run
         (fleet (resolveBelow 100) ([], None)
            ([container ''a'' 12 ''unit'', container ''b'' 12 ''unit''], None))
         (visit [1]))) = []"
  by (simp add: Run_def releaseSuccessful_def releaseJobs_def releaseJob_def maxFailedBuildID_def
        mapIndex_def
        buildSuccessMap_def buildFailedMap_def buildFailedMapStep_def fleet_def container_def
        resolveBelow_def visit_def Let_def)

text \<open>
  C2, amended. In a pass, the containers of a group that are not released all come from
  the build with the group's maximum identifier: a pass retains the containers of at
  most one build per job. For every job whose group holds at least one
  unsuccessful-build container and for which no successful build at or after the
  group's maximum failed build identifier is on record, exactly the containers of that
  build are retained (there is at least one, and exactly one when the build identifiers
  of the group are pairwise distinct) and every other container of the group is
  released.
\<close>

theorem latest_failed_build_retained:
  assumes "FindContainersFromSuccessfulBuildsWithInfiniteTTL (db cr) = (successfulContainers, serr)"
      and "FindContainersFromUnsuccessfulBuildsWithInfiniteTTL (db cr) = (failedContainers, None)"
      and "\<forall>c\<in>set failedContainers. 0 < BuildID c"
      and "rangeOrder (order (fst (buildFailedMap cr failedContainers [])))
             (fst (buildFailedMap cr failedContainers []))"
      and "fst (buildFailedMap cr failedContainers []) jobID = Some jobContainers"
  shows "(\<forall>c\<in>set jobContainers.
            Handle c \<notin> set (releases (snd (Run cr order))) \<longrightarrow>
              BuildID c = Max (BuildID ` set jobContainers))
       \<and> (highestSuccessfulBuildID cr successfulContainers jobID
             < Max (BuildID ` set jobContainers) \<longrightarrow>
            filter (\<lambda>c. BuildID c = Max (BuildID ` set jobContainers)) jobContainers \<noteq> []
          \<and> (\<forall>c\<in>set jobContainers.
                BuildID c \<noteq> Max (BuildID ` set jobContainers) \<longrightarrow>
                  Handle c \<in> set (releases (snd (Run cr order))))
          \<and> (distinct (map Handle (successfulContainers @ failedContainers)) \<longrightarrow>
               (\<forall>c\<in>set jobContainers.
                  Handle c \<in> set (releases (snd (Run cr order))) \<longleftrightarrow>
                    BuildID c \<noteq> Max (BuildID ` set jobContainers)))
          \<and> (distinct (map BuildID jobContainers) \<longrightarrow>
               (\<exists>c. filter (\<lambda>c. BuildID c = Max (BuildID ` set jobContainers)) jobContainers
                      = [c])))"
proof -
  let ?hi = "highestSuccessfulBuildID cr successfulContainers jobID"
  let ?M = "Max (BuildID ` set jobContainers)"
  let ?kept = "filter (\<lambda>c. BuildID c = ?M) jobContainers"
  let ?R = "set (releases (snd (Run cr order)))"
  have ne: "jobContainers \<noteq> []"
    using group_facts [OF assms(5)] by simp
  have le: "BuildID c \<le> ?M" if "c \<in> set jobContainers" for c
    using that by simp
  have lt: "BuildID c < ?M" if "c \<in> set jobContainers" "BuildID c \<noteq> ?M" for c
    using le [OF that(1)] that(2) by linarith
  have "if": "Handle c \<in> ?R" if "c \<in> set jobContainers" "?hi > ?M \<or> ?M > BuildID c" for c
    using Run_group_released_if [where order = order, OF assms(1,2,3,4,5) that] .
  have only_if: "?hi > ?M \<or> ?M > BuildID c"
    if "distinct (map Handle (successfulContainers @ failedContainers))"
      "c \<in> set jobContainers" "Handle c \<in> ?R" for c
    using Run_group_released_only_if [where order = order, OF assms(1,2,3) that(1) assms(5) that(2,3)] .
  have a: "\<forall>c\<in>set jobContainers. Handle c \<notin> ?R \<longrightarrow> BuildID c = ?M"
    using "if" lt by blast
  have "?M \<in> BuildID ` set jobContainers"
    using ne by (intro Max_in) auto
  then have kept: "?kept \<noteq> []"
    by (auto simp: filter_empty_conv)
  have rel: "\<forall>c\<in>set jobContainers. BuildID c \<noteq> ?M \<longrightarrow> Handle c \<in> ?R"
    using "if" lt by blast
  have iff: "distinct (map Handle (successfulContainers @ failedContainers)) \<longrightarrow>
               (\<forall>c\<in>set jobContainers. Handle c \<in> ?R \<longleftrightarrow> BuildID c \<noteq> ?M)"
    if "?hi < ?M"
  proof (intro impI ballI iffI)
    fix c
    assume d: "distinct (map Handle (successfulContainers @ failedContainers))"
      and c: "c \<in> set jobContainers"
    {
      assume "Handle c \<in> ?R"
      then have "?hi > ?M \<or> ?M > BuildID c" using only_if [OF d c] by simp
      then show "BuildID c \<noteq> ?M" using that by linarith
    }
    {
      assume "BuildID c \<noteq> ?M"
      then show "Handle c \<in> ?R" using rel c by blast
    }
  qed
  have one: "distinct (map BuildID jobContainers) \<longrightarrow> (\<exists>c. ?kept = [c])"
  proof
    assume "distinct (map BuildID jobContainers)"
    then have "length ?kept \<le> 1" by (rule filter_key_unique)
    then show "\<exists>c. ?kept = [c]"
      using kept by (cases ?kept) auto
  qed
  show ?thesis
    using a kept rel iff one by blast
qed

theorem latest_failed_build_retained_witness:
  "FindContainersFromSuccessfulBuildsWithInfiniteTTL
     (db (fleet (resolveBelow 100) ([], None)
            ([container ''h10'' 10 ''unit'', container ''h12'' 12 ''unit''], None)))
     = ([], None)
   \<and> FindContainersFromUnsuccessfulBuildsWithInfiniteTTL
     (db (fleet (resolveBelow 100) ([], None)
            ([container ''h10'' 10 ''unit'', container ''h12'' 12 ''unit''], None)))
     = ([container ''h10'' 10 ''unit'', container ''h12'' 12 ''unit''], None)
   \<and> 0 < BuildID (container ''h10'' 10 ''unit'') \<and> 0 < BuildID (container ''h12'' 12 ''unit'')
   \<and> rangeOrder
       (visit [1]
          (fst (buildFailedMap
                  (fleet (resolveBelow 100) ([], None)
                     ([container ''h10'' 10 ''unit'', container ''h12'' 12 ''unit''], None))
                  [container ''h10'' 10 ''unit'', container ''h12'' 12 ''unit''] [])))
       (fst (buildFailedMap
               (fleet (resolveBelow 100) ([], None)
                  ([container ''h10'' 10 ''unit'', container ''h12'' 12 ''unit''], None))
               [container ''h10'' 10 ''unit'', container ''h12'' 12 ''unit''] []))
   \<and> fst (buildFailedMap
          (fleet (resolveBelow 100) ([], None)
             ([container ''h10'' 10 ''unit'', container ''h12'' 12 ''unit''], None))
          [container ''h10'' 10 ''unit'', container ''h12'' 12 ''unit''] []) 1
     = Some [container ''h10'' 10 ''unit'', container ''h12'' 12 ''unit'']
   \<and> highestSuccessfulBuildID
       (fleet (resolveBelow 100) ([], None)
          ([container ''h10'' 10 ''unit'', container ''h12'' 12 ''unit''], None))
       [] 1
     < Max (BuildID ` set [container ''h10'' 10 ''unit'', container ''h12'' 12 ''unit''])
   \<and> distinct (map Handle ([] @ [container ''h10'' 10 ''unit'', container ''h12'' 12 ''unit'']))
   \<and> distinct (map BuildID [container ''h10'' 10 ''unit'', container ''h12'' 12 ''unit''])
   \<and> ''h10'' \<in> set (releases (snd (Run
         (fleet (resolveBelow 100) ([], None)
            ([container ''h10'' 10 ''unit'', container ''h12'' 12 ''unit''], None))
         (visit [1]))))
   \<and> ''h12'' \<notin> set (releases (snd (Run
         (fleet (resolveBelow 100) ([], None)
            ([container ''h10'' 10 ''unit'', container ''h12'' 12 ''unit''], None))
         (visit [1]))))
   \<and> filter (\<lambda>c. BuildID c
                   = Max (BuildID ` set [container ''h10'' 10 ''unit'',
                                         container ''h12'' 12 ''unit'']))
         [container ''h10'' 10 ''unit'', container ''h12'' 12 ''unit'']
       = [container ''h12'' 12 ''unit'']"
proof -
  let ?cs = "[container ''h10'' 10 ''unit'', container ''h12'' 12 ''unit'']"
  let ?cr = "fleet (resolveBelow 100) ([], None) (?cs, None)"
  have s: "FindContainersFromSuccessfulBuildsWithInfiniteTTL (db ?cr) = ([], None)"
    and f: "FindContainersFromUnsuccessfulBuildsWithInfiniteTTL (db ?cr) = (?cs, None)"
    by (simp_all add: fleet_def)
  have p: "\<forall>c\<in>set ?cs. 0 < BuildID c"
    by (simp add: container_def)
  have g: "fst (buildFailedMap ?cr ?cs []) 1 = Some ?cs"
    by (simp add: buildFailedMap_def buildFailedMapStep_def fleet_def container_def
          resolveBelow_def Let_def)
  have "dom (fst (buildFailedMap ?cr ?cs [])) = {1}"
    by (simp add: buildFailedMap_def buildFailedMapStep_def fleet_def container_def
          resolveBelow_def Let_def)
  then have r: "rangeOrder (visit [1] (fst (buildFailedMap ?cr ?cs [])))
                  (fst (buildFailedMap ?cr ?cs []))"
    by (simp add: rangeOrder_def visit_def)
  have n: "highestSuccessfulBuildID ?cr [] 1 < Max (BuildID ` set ?cs)"
    by (simp add: highestSuccessfulBuildID_def container_def)
  have d: "distinct (map Handle ([] @ ?cs))" and b: "distinct (map BuildID ?cs)"
    by (simp_all add: container_def)
  have iff: "\<forall>c\<in>set ?cs.
      Handle c \<in> set (releases (snd (Run ?cr (visit [1])))) \<longleftrightarrow>
        BuildID c \<noteq> Max (BuildID ` set ?cs)"
    using latest_failed_build_retained [where order = "visit [1]", OF s f p r g] n d
    by blast
  have i: "''h10'' \<in> set (releases (snd (Run ?cr (visit [1]))))"
    and o: "''h12'' \<notin> set (releases (snd (Run ?cr (visit [1]))))"
    using iff by (simp_all add: container_def)
  have k: "filter (\<lambda>c. BuildID c = Max (BuildID ` set ?cs)) ?cs = [container ''h12'' 12 ''unit'']"
    by (simp add: container_def)
  show ?thesis
    using s f p r g n d b i o k by simp
qed

subsection \<open>C3: stale by configuration\<close>

text \<open>
  C3. For every unsuccessful-build candidate whose pipeline cannot be built by its
  identifier, or whose configuration fetch errs or finds nothing, or whose job name is
  not among the jobs of the current configuration: the step that processes it leaves the
  groups as they are and invokes the release operation on it at once, within
  \<open>buildFailedMap\<close> and so before any build identifier is compared, and no group of
  the resulting map contains it.
\<close>

theorem stale_by_configuration_released:
  assumes "c \<in> set failedContainers" and "staleByConfiguration cr c"
  shows "fst (buildFailedMapStep cr (m, t) c) = m
       \<and> releases (snd (buildFailedMapStep cr (m, t) c)) = releases t @ [Handle c]
       \<and> Handle c \<in> set (releases (snd (buildFailedMap cr failedContainers [])))
       \<and> (\<forall>jobID jobContainers.
            fst (buildFailedMap cr failedContainers t) jobID = Some jobContainers \<longrightarrow>
              c \<notin> set jobContainers)"
proof -
  have step: "fst (buildFailedMapStep cr (m, t) c) = m"
    using assms(2) by (simp add: buildFailedMapStep_fst)
  have rel: "releases (snd (buildFailedMapStep cr (m, t) c)) = releases t @ [Handle c]"
    using assms(2) by (simp add: buildFailedMapStep_releases)
  have "c \<in> set (filter (\<lambda>c. staleByConfiguration cr c \<or> unresolvable cr c) failedContainers)"
    using assms by simp
  then have inl: "Handle c \<in> set (releases (snd (buildFailedMap cr failedContainers [])))"
    unfolding buildFailedMap_releases by (simp add: image_iff) blast
  have out: "\<forall>jobID jobContainers.
      fst (buildFailedMap cr failedContainers t) jobID = Some jobContainers \<longrightarrow>
        c \<notin> set jobContainers"
    using assms(2) by (auto simp: buildFailedMap_group grouped_def split: if_splits)
  show ?thesis using step rel inl out by blast
qed

theorem stale_by_configuration_released_witness:
  "container ''hX'' 5 ''gone'' \<in> set [container ''h10'' 10 ''unit'', container ''hX'' 5 ''gone'']
   \<and> staleByConfiguration
       (fleet (resolveBelow 100) ([], None)
          ([container ''h10'' 10 ''unit'', container ''hX'' 5 ''gone''], None))
       (container ''hX'' 5 ''gone'')
   \<and> releases (snd (buildFailedMap
         (fleet (resolveBelow 100) ([], None)
            ([container ''h10'' 10 ''unit'', container ''hX'' 5 ''gone''], None))
         [container ''h10'' 10 ''unit'', container ''hX'' 5 ''gone''] [])) = [''hX'']
   \<and> fst (buildFailedMap
         (fleet (resolveBelow 100) ([], None)
            ([container ''h10'' 10 ''unit'', container ''hX'' 5 ''gone''], None))
         [container ''h10'' 10 ''unit'', container ''hX'' 5 ''gone''] []) 1
       = Some [container ''h10'' 10 ''unit'']"
proof -
  let ?c = "container ''hX'' 5 ''gone''"
  let ?cs = "[container ''h10'' 10 ''unit'', ?c]"
  let ?cr = "fleet (resolveBelow 100) ([], None) (?cs, None)"
  have i: "?c \<in> set ?cs" by simp
  have s: "staleByConfiguration ?cr ?c"
    by (simp add: staleByConfiguration_def fleet_def container_def)
  have "Handle ?c \<in> set (releases (snd (buildFailedMap ?cr ?cs [])))"
    using stale_by_configuration_released [OF i s, of Map.empty "[]"] by simp
  moreover have "releases (snd (buildFailedMap ?cr ?cs [])) = [''hX'']"
    by (simp add: buildFailedMap_def buildFailedMapStep_def release_def
          updateWorkerContainerTTL_def fleet_def container_def resolveBelow_def Let_def)
  moreover have "fst (buildFailedMap ?cr ?cs []) 1 = Some [container ''h10'' 10 ''unit'']"
    by (simp add: buildFailedMap_def buildFailedMapStep_def release_def
          updateWorkerContainerTTL_def fleet_def container_def resolveBelow_def Let_def)
  ultimately show ?thesis using i s by simp
qed

subsection \<open>C4: what \<open>Run\<close> returns\<close>



subsection \<open>C5: the release operation\<close>

text \<open>
  C5. The release operation instructs the worker first and the registry second. If the
  worker lookup errs or finds nothing, the release ends with that error after the lookup:
  no worker instruction and no registry update is made. If the lookup succeeds, the
  worker instruction is followed by the registry update; when the update fails, its
  error is the result of the release, and nothing is done on the worker after the
  instruction.
\<close>

theorem release_worker_first_then_registry:
  "(\<forall>e. snd (LookupContainer (workerClient cr) h) = Some e \<longrightarrow>
      release cr h t = (Some e, t @ [Lookup h, Logged ''error-finding-worker-container'']))
   \<and> (LookupContainer (workerClient cr) h = (False, None) \<longrightarrow>
        release cr h t =
          (Some ''worker-container-not-found'',
           t @ [Lookup h, Logged ''worker-containerr-not-found'']))
   \<and> (LookupContainer (workerClient cr) h = (True, None) \<longrightarrow>
        (\<forall>e. UpdateExpiresAtOnContainer (db cr) h = Some e \<longrightarrow>
           release cr h t =
             (Some e,
              t @ [Lookup h, WorkerRelease h, UpdateExpiresAt h,
                   Logged ''error-updating-db-container-ttl'']))
        \<and> (UpdateExpiresAtOnContainer (db cr) h = None \<longrightarrow>
             release cr h t = (None, t @ [Lookup h, WorkerRelease h, UpdateExpiresAt h])))"
  by (auto simp: release_def updateWorkerContainerTTL_def Let_def split: prod.splits)

theorem release_worker_first_then_registry_witness:
  "LookupContainer (workerClient (fleet (resolveBelow 100) ([], None) ([], None))) ''broken''
     = (False, Some ''worker-unreachable'')
   \<and> release (fleet (resolveBelow 100) ([], None) ([], None)) ''broken'' []
     = (Some ''worker-unreachable'',
        [Lookup ''broken'', Logged ''error-finding-worker-container''])
   \<and> LookupContainer (workerClient (fleet (resolveBelow 100) ([], None) ([], None))) ''lost''
     = (False, None)
   \<and> release (fleet (resolveBelow 100) ([], None) ([], None)) ''lost'' []
     = (Some ''worker-container-not-found'',
        [Lookup ''lost'', Logged ''worker-containerr-not-found''])
   \<and> LookupContainer (workerClient (fleet (resolveBelow 100) ([], None) ([], None))) ''stuck''
     = (True, None)
   \<and> UpdateExpiresAtOnContainer (db (fleet (resolveBelow 100) ([], None) ([], None))) ''stuck''
     = Some ''registry-down''
   \<and> release (fleet (resolveBelow 100) ([], None) ([], None)) ''stuck'' []
     = (Some ''registry-down'',
        [Lookup ''stuck'', WorkerRelease ''stuck'', UpdateExpiresAt ''stuck'',
         Logged ''error-updating-db-container-ttl''])
   \<and> LookupContainer (workerClient (fleet (resolveBelow 100) ([], None) ([], None))) ''h12''
     = (True, None)
   \<and> UpdateExpiresAtOnContainer (db (fleet (resolveBelow 100) ([], None) ([], None))) ''h12''
     = None
   \<and> release (fleet (resolveBelow 100) ([], None) ([], None)) ''h12'' []
     = (None, [Lookup ''h12'', WorkerRelease ''h12'', UpdateExpiresAt ''h12''])"
proof -
  let ?cr = "fleet (resolveBelow 100) ([], None) ([], None)"
  have b: "LookupContainer (workerClient ?cr) ''broken'' = (False, Some ''worker-unreachable'')"
    and l: "LookupContainer (workerClient ?cr) ''lost'' = (False, None)"
    and s: "LookupContainer (workerClient ?cr) ''stuck'' = (True, None)"
    and su: "UpdateExpiresAtOnContainer (db ?cr) ''stuck'' = Some ''registry-down''"
    and k: "LookupContainer (workerClient ?cr) ''h12'' = (True, None)"
    and ku: "UpdateExpiresAtOnContainer (db ?cr) ''h12'' = None"
    by (simp_all add: fleet_def)
  have rb: "release ?cr ''broken'' [] =
      (Some ''worker-unreachable'', [Lookup ''broken'', Logged ''error-finding-worker-container''])"
    using b release_worker_first_then_registry [of ?cr "''broken''" "[]"] by simp
  have rl: "release ?cr ''lost'' [] =
      (Some ''worker-container-not-found'',
       [Lookup ''lost'', Logged ''worker-containerr-not-found''])"
    using l release_worker_first_then_registry [of ?cr "''lost''" "[]"] by simp
  have rs: "release ?cr ''stuck'' [] =
      (Some ''registry-down'',
       [Lookup ''stuck'', WorkerRelease ''stuck'', UpdateExpiresAt ''stuck'',
        Logged ''error-updating-db-container-ttl''])"
    using s su release_worker_first_then_registry [of ?cr "''stuck''" "[]"] by simp
  have rk: "release ?cr ''h12'' [] =
      (None, [Lookup ''h12'', WorkerRelease ''h12'', UpdateExpiresAt ''h12''])"
    using k ku release_worker_first_then_registry [of ?cr "''h12''" "[]"] by simp
  show ?thesis
    using b l s su k ku rb rl rs rk by simp
qed

subsection \<open>C6: successful builds\<close>

text \<open>
  C6. When the query for the successful-build candidates succeeds, the pass begins by
  invoking the release operation on every one of them, in order and without any test,
  so also on those whose build resolves to no job. While the aggregate is built such a
  container is released and skipped: the aggregate is the one built from the resolvable
  containers alone, and each of its entries comes from a resolvable container.
\<close>

theorem successful_containers_all_released:
  assumes "FindContainersFromSuccessfulBuildsWithInfiniteTTL (db cr) = (successfulContainers, None)"
  shows "take (length successfulContainers) (releases (snd (Run cr order)))
           = map Handle successfulContainers
       \<and> (\<forall>c\<in>set successfulContainers. Handle c \<in> set (releases (snd (Run cr order))))
       \<and> releases (snd (buildSuccessMap cr successfulContainers t)) =
           releases t @ map Handle (filter (unresolvable cr) successfulContainers)
       \<and> fst (buildSuccessMap cr successfulContainers t) =
           fst (buildSuccessMap cr
                  (filter (\<lambda>c. \<not> unresolvable cr c) successfulContainers) t)
       \<and> (\<forall>jobID v. fst (buildSuccessMap cr successfulContainers t) jobID = Some v \<longrightarrow>
            (\<exists>c\<in>set successfulContainers.
               \<not> unresolvable cr c \<and> jobOf cr c = jobID \<and> BuildID c = v))"
proof -
  obtain failed ferr where
    q: "FindContainersFromUnsuccessfulBuildsWithInfiniteTTL (db cr) = (failed, ferr)"
    by (cases "FindContainersFromUnsuccessfulBuildsWithInfiniteTTL (db cr)")
  obtain rest where r: "releases (snd (Run cr order)) = map Handle successfulContainers @ rest"
    using Run_releases [OF assms q, of order] by simp
  have a: "take (length successfulContainers) (releases (snd (Run cr order)))
           = map Handle successfulContainers"
    using r by simp
  have b: "\<forall>c\<in>set successfulContainers. Handle c \<in> set (releases (snd (Run cr order)))"
    using r by simp
  have c: "releases (snd (buildSuccessMap cr successfulContainers t)) =
           releases t @ map Handle (filter (unresolvable cr) successfulContainers)"
    by (rule buildSuccessMap_releases)
  have d: "fst (buildSuccessMap cr successfulContainers t) =
           fst (buildSuccessMap cr (filter (\<lambda>c. \<not> unresolvable cr c) successfulContainers) t)"
    using aggregate_filter [of cr Map.empty successfulContainers]
    by (simp add: buildSuccessMap_fst)
  have e: "\<forall>jobID v. fst (buildSuccessMap cr successfulContainers t) jobID = Some v \<longrightarrow>
            (\<exists>c\<in>set successfulContainers.
               \<not> unresolvable cr c \<and> jobOf cr c = jobID \<and> BuildID c = v)"
    using aggregate_entry [of cr Map.empty successfulContainers]
    by (simp add: buildSuccessMap_fst)
  show ?thesis using a b c d e by blast
qed

theorem successful_containers_all_released_witness:
  "FindContainersFromSuccessfulBuildsWithInfiniteTTL
     (db (fleet (resolveBelow 13)
            ([container ''s13'' 13 ''unit'', container ''s11'' 11 ''unit''], None) ([], None)))
     = ([container ''s13'' 13 ''unit'', container ''s11'' 11 ''unit''], None)
   \<and> take (length [container ''s13'' 13 ''unit'', container ''s11'' 11 ''unit''])
       (releases (snd (Run
         (fleet (resolveBelow 13)
            ([container ''s13'' 13 ''unit'', container ''s11'' 11 ''unit''], None) ([], None))
         (visit [])))) = [''s13'', ''s11'']
   \<and> unresolvable
       (fleet (resolveBelow 13)
          ([container ''s13'' 13 ''unit'', container ''s11'' 11 ''unit''], None) ([], None))
       (container ''s13'' 13 ''unit'')
   \<and> fst (buildSuccessMap
         (fleet (resolveBelow 13)
            ([container ''s13'' 13 ''unit'', container ''s11'' 11 ''unit''], None) ([], None))
         [container ''s13'' 13 ''unit'', container ''s11'' 11 ''unit''] []) 1 = Some 11
   \<and> releases (snd (buildSuccessMap
         (fleet (resolveBelow 13)
            ([container ''s13'' 13 ''unit'', container ''s11'' 11 ''unit''], None) ([], None))
         [container ''s13'' 13 ''unit'', container ''s11'' 11 ''unit''] [])) = [''s13'']"
proof -
  let ?cs = "[container ''s13'' 13 ''unit'', container ''s11'' 11 ''unit'']"
  let ?cr = "fleet (resolveBelow 13) (?cs, None) ([], None)"
  have q: "FindContainersFromSuccessfulBuildsWithInfiniteTTL (db ?cr) = (?cs, None)"
    by (simp add: fleet_def)
  have u: "unresolvable ?cr (container ''s13'' 13 ''unit'')"
    "\<not> unresolvable ?cr (container ''s11'' 11 ''unit'')"
    by (simp_all add: unresolvable_def fleet_def container_def resolveBelow_def)
  have m: "fst (buildSuccessMap ?cr ?cs []) 1 = Some 11"
    by (simp add: buildSuccessMap_def buildSuccessMapStep_def mapIndex_def fleet_def
          container_def resolveBelow_def Let_def)
  have t: "take (length ?cs) (releases (snd (Run ?cr (visit [])))) = map Handle ?cs"
    and r: "releases (snd (buildSuccessMap ?cr ?cs [])) =
              releases [] @ map Handle (filter (unresolvable ?cr) ?cs)"
    using successful_containers_all_released [OF q, of "visit []" "[]"] by blast+
  have r': "releases (snd (buildSuccessMap ?cr ?cs [])) = [''s13'']"
    unfolding r using u by (simp add: container_def)
  have t': "take (length ?cs) (releases (snd (Run ?cr (visit [])))) = [''s13'', ''s11'']"
    unfolding t by (simp add: container_def)
  show ?thesis
    using q u(1) m t' r' by blast
qed

subsection \<open>C7: what a failure on one container does to the others\<close>

text \<open>
  C7, as stated, fails. The containers \<open>h10\<close> and \<open>h12\<close> come from the failed
  builds 10 and 12 of job 1. When every build resolves, \<open>h10\<close> is released and
  \<open>h12\<close> retained. When the resolver finds nothing for build 12 and answers as before
  for build 10, \<open>h12\<close> is released at once and left out of the group, so \<open>h10\<close> is
  now the latest failure of its job and is retained: the failure on \<open>h12\<close> has changed
  the decision for \<open>h10\<close>.
\<close>

theorem resolver_failure_changes_sibling_decision:
  "FindJobIDForBuild
     (db (fleet (resolveBelow 12) ([], None)
            ([container ''h10'' 10 ''unit'', container ''h12'' 12 ''unit''], None))) 10
     = FindJobIDForBuild
         (db (fleet (resolveBelow 100) ([], None)
                ([container ''h10'' 10 ''unit'', container ''h12'' 12 ''unit''], None))) 10
   \<and> unresolvable
       (fleet (resolveBelow 12) ([], None)
          ([container ''h10'' 10 ''unit'', container ''h12'' 12 ''unit''], None))
       (container ''h12'' 12 ''unit'')
   \<and> releases (snd (Run
         (fleet (resolveBelow 100) ([], None)
            ([container ''h10'' 10 ''unit'', container ''h12'' 12 ''unit''], None))
         (visit [1]))) = [''h10'']
   \<and> releases (snd (Run
         (fleet (resolveBelow 12) ([], None)
            ([container ''h10'' 10 ''unit'', container ''h12'' 12 ''unit''], None))
         (visit [1]))) = [''h12'']"
  by (simp add: Run_def releaseSuccessful_def releaseJobs_def releaseJob_def
        maxFailedBuildID_def mapIndex_def buildSuccessMap_def buildFailedMap_def
        buildFailedMapStep_def release_def updateWorkerContainerTTL_def unresolvable_def
        fleet_def container_def resolveBelow_def visit_def Let_def)

lemma worker_answers_irrelevant:
  fixes cr w u
  defines "cr' \<equiv> cr\<lparr>workerClient := w, db := (db cr)\<lparr>UpdateExpiresAtOnContainer := u\<rparr>\<rparr>"
  shows "staleByConfiguration cr' = staleByConfiguration cr"
    and "unresolvable cr' = unresolvable cr"
    and "jobOf cr' = jobOf cr"
    and "aggregate cr' = aggregate cr"
    and "fst (buildFailedMap cr' cs t) = fst (buildFailedMap cr cs t)"
proof -
  show s: "staleByConfiguration cr' = staleByConfiguration cr"
    by (rule ext) (simp add: staleByConfiguration_def cr'_def)
  show u: "unresolvable cr' = unresolvable cr"
    by (rule ext) (simp add: unresolvable_def cr'_def)
  show j: "jobOf cr' = jobOf cr"
    by (rule ext) (simp add: jobOf_def cr'_def)
  show "aggregate cr' = aggregate cr"
    unfolding aggregate_def u j by (rule refl)
  show "fst (buildFailedMap cr' cs t) = fst (buildFailedMap cr cs t)"
    by (rule ext) (simp add: buildFailedMap_group grouped_def s u j)
qed

text \<open>
  C7, amended. No error on one container ends the pass or keeps another candidate from
  being processed, and a failure of the worker lookup or of the registry update never
  changes for which containers, and in which order, release is attempted: a pass makes
  the same release attempts whatever the worker and the registry answer. Every
  successful candidate is released; an unsuccessful candidate is released in step 2 by
  a test on that container alone, or else joins the group of its job; a grouped
  container is released by the test of line 108. A resolver or configuration failure
  takes the failing container out of its group or of the aggregate, and can change the
  decision for the other containers of the same job through the two maxima only.
\<close>

theorem release_failures_isolated:
  "releases (snd (Run (cr\<lparr>workerClient := w,
                         db := (db cr)\<lparr>UpdateExpiresAtOnContainer := u\<rparr>\<rparr>) order))
     = releases (snd (Run cr order))
   \<and> releases (releaseSuccessful cr cs t) = releases t @ map Handle cs
   \<and> releases (snd (buildFailedMap cr cs t)) =
       releases t @ map Handle (filter (\<lambda>c. staleByConfiguration cr c \<or> unresolvable cr c) cs)
   \<and> fst (buildFailedMap cr cs t) jobID =
       (if grouped cr jobID cs = [] then None else Some (grouped cr jobID cs))
   \<and> releases (snd (buildSuccessMap cr cs t)) =
       releases t @ map Handle (filter (unresolvable cr) cs)
   \<and> releases (releaseJob cr sm jobID cs t) =
       releases t @
       map Handle
         (filter (\<lambda>c. mapIndex sm jobID > maxFailedBuildID cs \<or> maxFailedBuildID cs > BuildID c)
            cs)"
proof -
  let ?cr' = "cr\<lparr>workerClient := w, db := (db cr)\<lparr>UpdateExpiresAtOnContainer := u\<rparr>\<rparr>"
  obtain succ serr where
    s: "FindContainersFromSuccessfulBuildsWithInfiniteTTL (db cr) = (succ, serr)"
    by (cases "FindContainersFromSuccessfulBuildsWithInfiniteTTL (db cr)")
  obtain failed ferr where
    f: "FindContainersFromUnsuccessfulBuildsWithInfiniteTTL (db cr) = (failed, ferr)"
    by (cases "FindContainersFromUnsuccessfulBuildsWithInfiniteTTL (db cr)")
  have s': "FindContainersFromSuccessfulBuildsWithInfiniteTTL (db ?cr') = (succ, serr)"
    and f': "FindContainersFromUnsuccessfulBuildsWithInfiniteTTL (db ?cr') = (failed, ferr)"
    using s f by simp_all
  have a: "releases (snd (Run ?cr' order)) = releases (snd (Run cr order))"
    unfolding Run_releases [OF s f] Run_releases [OF s' f'] worker_answers_irrelevant
    by (rule refl)
  show ?thesis
    using a
    by (simp add: releaseSuccessful_releases buildFailedMap_releases buildFailedMap_group
          buildSuccessMap_releases releaseJob_releases jobSelection_def)
qed

theorem release_failures_isolated_witness:
  "releases (snd (Run
      ((fleet (resolveBelow 100) ([container ''s13'' 13 ''unit''], None)
          ([container ''h10'' 10 ''unit'', container ''h12'' 12 ''unit''], None))
         \<lparr>workerClient := \<lparr>LookupContainer = (\<lambda>h. (False, Some ''worker-unreachable''))\<rparr>,
          db := (db (fleet (resolveBelow 100) ([container ''s13'' 13 ''unit''], None)
                       ([container ''h10'' 10 ''unit'', container ''h12'' 12 ''unit''], None)))
                  \<lparr>UpdateExpiresAtOnContainer := (\<lambda>h. Some ''registry-down'')\<rparr>\<rparr>)
      (visit [1])))
   = [''s13'', ''h10'', ''h12'']
   \<and> releases (snd (Run
        (fleet (resolveBelow 100) ([container ''s13'' 13 ''unit''], None)
           ([container ''h10'' 10 ''unit'', container ''h12'' 12 ''unit''], None))
        (visit [1])))
   = [''s13'', ''h10'', ''h12'']"
proof -
  let ?cr = "fleet (resolveBelow 100) ([container ''s13'' 13 ''unit''], None)
               ([container ''h10'' 10 ''unit'', container ''h12'' 12 ''unit''], None)"
  have r: "releases (snd (Run ?cr (visit [1]))) = [''s13'', ''h10'', ''h12'']"
    by (simp add: Run_def releaseSuccessful_def releaseJobs_def releaseJob_def
          maxFailedBuildID_def mapIndex_def buildSuccessMap_def buildSuccessMapStep_def
          buildFailedMap_def buildFailedMapStep_def release_def updateWorkerContainerTTL_def
          fleet_def container_def resolveBelow_def visit_def Let_def)
  show ?thesis
    using r release_failures_isolated
      [where cr = ?cr and order = "visit [1]"
         and w = "\<lparr>LookupContainer = (\<lambda>h. (False, Some ''worker-unreachable''))\<rparr>"
         and u = "\<lambda>h. Some ''registry-down''"]
    by simp
qed

subsection \<open>C8: orphan containers\<close>

text \<open>
  C8, as stated, fails. The registry of this fleet answers the orphan query with the
  container \<open>orphan\<close>, and has no other candidates. The pass makes the two queries for
  successful and unsuccessful builds and nothing else: the orphan query is not made and
  \<open>orphan\<close> is not released.
\<close>

theorem orphans_never_queried:
  "FindOrphanContainersWithInfiniteTTL (db (fleet (resolveBelow 100) ([], None) ([], None)))
     = ([container ''orphan'' 0 ''''], None)
   \<and> Run (fleet (resolveBelow 100) ([], None) ([], None)) (visit [])
     = (None, [FindSuccessful, Logged ''running-container-reaper'', FindUnsuccessful])"
  by (simp add: Run_def releaseSuccessful_def releaseJobs_def buildSuccessMap_def
        buildFailedMap_def fleet_def visit_def Let_def)

lemma orphan_answer_irrelevant:
  fixes cr q
  defines "cr' \<equiv> cr\<lparr>db := (db cr)\<lparr>FindOrphanContainersWithInfiniteTTL := q\<rparr>\<rparr>"
  shows "release cr' = release cr"
    and "buildSuccessMapStep cr' = buildSuccessMapStep cr"
    and "buildFailedMapStep cr' = buildFailedMapStep cr"
    and "releaseSuccessful cr' = releaseSuccessful cr"
    and "releaseJobs cr' = releaseJobs cr"
proof -
  have w: "workerClient cr' = workerClient cr"
    and u: "UpdateExpiresAtOnContainer (db cr') = UpdateExpiresAtOnContainer (db cr)"
    by (simp_all add: cr'_def)
  have uw: "updateWorkerContainerTTL cr' = updateWorkerContainerTTL cr"
    unfolding updateWorkerContainerTTL_def w by (rule refl)
  show r: "release cr' = release cr"
    unfolding release_def uw u by (rule refl)
  have d: "FindJobIDForBuild (db cr') = FindJobIDForBuild (db cr)"
    and p: "pipelineDBFactory cr' = pipelineDBFactory cr"
    by (simp_all add: cr'_def)
  show "buildSuccessMapStep cr' = buildSuccessMapStep cr"
    unfolding buildSuccessMapStep_def r d by (rule refl)
  show "buildFailedMapStep cr' = buildFailedMapStep cr"
    unfolding buildFailedMapStep_def r d p by (rule refl)
  show "releaseSuccessful cr' = releaseSuccessful cr"
    unfolding releaseSuccessful_def r by (rule refl)
  have rj: "releaseJob cr' = releaseJob cr"
    unfolding releaseJob_def r by (rule refl)
  show "releaseJobs cr' = releaseJobs cr"
    unfolding releaseJobs_def rj by (rule refl)
qed

text \<open>
  C8, amended. A single pass pulls two candidate sets from the registry, the
  successful-build and the unsuccessful-build containers. The orphan query belongs to
  the interface \<open>ContainerReaperDB\<close> but \<open>Run\<close> never calls it: the result and the
  trace of a pass are the same whatever that query would answer, and release is invoked
  only on handles of the two sets fetched.
\<close>

theorem pass_fetches_two_candidate_sets:
  "Run (cr\<lparr>db := (db cr)\<lparr>FindOrphanContainersWithInfiniteTTL := q\<rparr>\<rparr>) order = Run cr order
   \<and> set (releases (snd (Run cr order))) \<subseteq>
       Handle ` set (fst (FindContainersFromSuccessfulBuildsWithInfiniteTTL (db cr)))
       \<union> Handle ` set (fst (FindContainersFromUnsuccessfulBuildsWithInfiniteTTL (db cr)))"
proof -
  let ?cr' = "cr\<lparr>db := (db cr)\<lparr>FindOrphanContainersWithInfiniteTTL := q\<rparr>\<rparr>"
  have q: "FindContainersFromSuccessfulBuildsWithInfiniteTTL (db ?cr')
             = FindContainersFromSuccessfulBuildsWithInfiniteTTL (db cr)"
    "FindContainersFromUnsuccessfulBuildsWithInfiniteTTL (db ?cr')
             = FindContainersFromUnsuccessfulBuildsWithInfiniteTTL (db cr)"
    by simp_all
  have a: "Run ?cr' order = Run cr order"
    unfolding Run_def buildSuccessMap_def buildFailedMap_def q orphan_answer_irrelevant
    by (rule refl)
  obtain succ serr where
    s: "FindContainersFromSuccessfulBuildsWithInfiniteTTL (db cr) = (succ, serr)"
    by (cases "FindContainersFromSuccessfulBuildsWithInfiniteTTL (db cr)")
  obtain failed ferr where
    f: "FindContainersFromUnsuccessfulBuildsWithInfiniteTTL (db cr) = (failed, ferr)"
    by (cases "FindContainersFromUnsuccessfulBuildsWithInfiniteTTL (db cr)")
  have "set (releases (snd (Run cr order))) \<subseteq> Handle ` set succ \<union> Handle ` set failed"
    unfolding Run_releases [OF s f]
    using jobsSelection_subset [of cr failed "[]" "aggregate cr Map.empty succ"
        "order (fst (buildFailedMap cr failed []))"]
    by auto
  then show ?thesis using a s f by simp
qed

theorem pass_fetches_two_candidate_sets_witness:
  "Run ((fleet (resolveBelow 100) ([container ''s13'' 13 ''unit''], None)
           ([container ''h10'' 10 ''unit'', container ''h12'' 12 ''unit''], None))
          \<lparr>db := (db (fleet (resolveBelow 100) ([container ''s13'' 13 ''unit''], None)
                        ([container ''h10'' 10 ''unit'', container ''h12'' 12 ''unit''], None)))
                   \<lparr>FindOrphanContainersWithInfiniteTTL := ([], Some ''no-connection'')\<rparr>\<rparr>)
       (visit [1])
   = Run (fleet (resolveBelow 100) ([container ''s13'' 13 ''unit''], None)
            ([container ''h10'' 10 ''unit'', container ''h12'' 12 ''unit''], None))
       (visit [1])
   \<and> releases (snd (Run
        (fleet (resolveBelow 100) ([container ''s13'' 13 ''unit''], None)
           ([container ''h10'' 10 ''unit'', container ''h12'' 12 ''unit''], None))
        (visit [1])))
   = [''s13'', ''h10'', ''h12'']"
proof -
  let ?cr = "fleet (resolveBelow 100) ([container ''s13'' 13 ''unit''], None)
               ([container ''h10'' 10 ''unit'', container ''h12'' 12 ''unit''], None)"
  have r: "releases (snd (Run ?cr (visit [1]))) = [''s13'', ''h10'', ''h12'']"
    by (simp add: Run_def releaseSuccessful_def releaseJobs_def releaseJob_def
          maxFailedBuildID_def mapIndex_def buildSuccessMap_def buildSuccessMapStep_def
          buildFailedMap_def buildFailedMapStep_def release_def updateWorkerContainerTTL_def
          fleet_def container_def resolveBelow_def visit_def Let_def)
  show ?thesis
    using r pass_fetches_two_candidate_sets
      [where cr = ?cr and order = "visit [1]" and q = "([], Some ''no-connection'')"]
    by simp
qed

subsection \<open>C9: a pass without the successful candidates\<close>

text \<open>
  C9, as stated, fails. \<open>Run\<close> hands whatever the first query returned to
  \<open>buildSuccessMap\<close> without looking at the error. Here the query fails and yet
  returns the containers \<open>s13\<close>, of build 13 of job 1, and \<open>s150\<close>, whose build
  resolves to no job: the aggregate is not empty, \<open>h12\<close> is released because job 1 has
  since succeeded, and the successful-build container \<open>s150\<close> is released.
\<close>

theorem failing_query_with_containers_feeds_aggregate:
  "FindContainersFromSuccessfulBuildsWithInfiniteTTL
     (db (fleet (resolveBelow 100)
            ([container ''s13'' 13 ''unit'', container ''s150'' 150 ''unit''],
             Some ''no-connection'')
            ([container ''h10'' 10 ''unit'', container ''h12'' 12 ''unit''], None)))
     = ([container ''s13'' 13 ''unit'', container ''s150'' 150 ''unit''], Some ''no-connection'')
   \<and> fst (buildSuccessMap
          (fleet (resolveBelow 100)
             ([container ''s13'' 13 ''unit'', container ''s150'' 150 ''unit''],
              Some ''no-connection'')
             ([container ''h10'' 10 ''unit'', container ''h12'' 12 ''unit''], None))
          [container ''s13'' 13 ''unit'', container ''s150'' 150 ''unit''] []) 1
     = Some 13
   \<and> releases (snd (Run
         (fleet (resolveBelow 100)
            ([container ''s13'' 13 ''unit'', container ''s150'' 150 ''unit''],
             Some ''no-connection'')
            ([container ''h10'' 10 ''unit'', container ''h12'' 12 ''unit''], None))
         (visit [1])))
     = [''s150'', ''h10'', ''h12'']"
  by (simp add: Run_def releaseSuccessful_def releaseJobs_def releaseJob_def
        maxFailedBuildID_def mapIndex_def buildSuccessMap_def buildSuccessMapStep_def
        buildFailedMap_def buildFailedMapStep_def release_def updateWorkerContainerTTL_def
        fleet_def container_def resolveBelow_def visit_def Let_def)

text \<open>
  C9, amended. When the query for the successful-build candidates fails and hands back a nil
  slice, the pass still classifies the unsuccessful-build containers it fetches, against
  the empty aggregate that \<open>buildSuccessMap\<close> makes of a nil slice. With real build
  identifiers every job then reads as having no success on record: the pass releases
  the containers that are stale or unresolvable and, in each group, those below the
  group's highest build, and no others; no container is released because its job has
  since succeeded, and no successful-build container is released. (When the second
  query fails as well, nothing is released.)
\<close>

theorem failed_successful_query_means_no_success_on_record:
  assumes "FindContainersFromSuccessfulBuildsWithInfiniteTTL (db cr) = ([], Some e)"
      and "FindContainersFromUnsuccessfulBuildsWithInfiniteTTL (db cr) = (failedContainers, ferr)"
      and "\<forall>c\<in>set failedContainers. 0 < BuildID c"
  shows "fst (buildSuccessMap cr [] t) = Map.empty
       \<and> fst (Run cr order) = ferr
       \<and> releases (snd (Run cr order)) =
           (if ferr = None then
              map Handle
                (filter (\<lambda>c. staleByConfiguration cr c \<or> unresolvable cr c)
                   failedContainers) @
              concat
                (map (\<lambda>jobID.
                        case fst (buildFailedMap cr failedContainers []) jobID of
                          None \<Rightarrow> []
                        | Some jobContainers \<Rightarrow>
                            map Handle
                              (filter (\<lambda>c. BuildID c < Max (BuildID ` set jobContainers))
                                 jobContainers))
                   (order (fst (buildFailedMap cr failedContainers []))))
            else [])"
proof -
  let ?fm = "fst (buildFailedMap cr failedContainers [])"
  have a: "fst (buildSuccessMap cr [] t) = Map.empty"
    by (simp add: buildSuccessMap_def)
  have b: "fst (Run cr order) = ferr"
    using assms(2) by (simp add: Run_result)
  have sel: "(case ?fm j of None \<Rightarrow> [] | Some cs \<Rightarrow> jobSelection Map.empty j cs) =
             (case ?fm j of None \<Rightarrow> []
              | Some cs \<Rightarrow> map Handle (filter (\<lambda>c. BuildID c < Max (BuildID ` set cs)) cs))"
    for j
  proof (cases "?fm j")
    case None
    then show ?thesis by simp
  next
    case (Some cs)
    have "maxFailedBuildID cs = Max (BuildID ` set cs)" and "0 < Max (BuildID ` set cs)"
      using group_max [OF Some assms(3)] by simp_all
    then show ?thesis
      using Some by (simp add: jobSelection_def mapIndex_def)
  qed
  have "jobsSelection ?fm Map.empty ks =
        concat (map (\<lambda>j. case ?fm j of None \<Rightarrow> []
                          | Some cs \<Rightarrow>
                              map Handle (filter (\<lambda>c. BuildID c < Max (BuildID ` set cs)) cs))
                  ks)" for ks
    unfolding jobsSelection_def using sel by simp
  then have c: "releases (snd (Run cr order)) =
           (if ferr = None then
              map Handle
                (filter (\<lambda>c. staleByConfiguration cr c \<or> unresolvable cr c)
                   failedContainers) @
              concat
                (map (\<lambda>jobID.
                        case ?fm jobID of
                          None \<Rightarrow> []
                        | Some jobContainers \<Rightarrow>
                            map Handle
                              (filter (\<lambda>c. BuildID c < Max (BuildID ` set jobContainers))
                                 jobContainers))
                   (order ?fm))
            else [])"
    using Run_releases [OF assms(1,2), of order] by (simp add: aggregate_def)
  show ?thesis using a b c by blast
qed

theorem failed_successful_query_means_no_success_on_record_witness:
  "FindContainersFromSuccessfulBuildsWithInfiniteTTL
     (db (fleet (resolveBelow 12) ([], Some ''no-connection'')
            ([container ''h10'' 10 ''unit'', container ''h11'' 11 ''unit'',
              container ''h12'' 12 ''unit''], None)))
     = ([], Some ''no-connection'')
   \<and> FindContainersFromUnsuccessfulBuildsWithInfiniteTTL
     (db (fleet (resolveBelow 12) ([], Some ''no-connection'')
            ([container ''h10'' 10 ''unit'', container ''h11'' 11 ''unit'',
              container ''h12'' 12 ''unit''], None)))
     = ([container ''h10'' 10 ''unit'', container ''h11'' 11 ''unit'',
         container ''h12'' 12 ''unit''], None)
   \<and> 0 < BuildID (container ''h10'' 10 ''unit'')
   \<and> 0 < BuildID (container ''h11'' 11 ''unit'')
   \<and> 0 < BuildID (container ''h12'' 12 ''unit'')
   \<and> Run (fleet (resolveBelow 12) ([], Some ''no-connection'')
            ([container ''h10'' 10 ''unit'', container ''h11'' 11 ''unit'',
              container ''h12'' 12 ''unit''], None))
        (visit [1])
     = (None,
        [FindSuccessful, Logged ''running-container-reaper'',
         Logged ''failed-to-find-successful-containers'', FindUnsuccessful,
         BuildPipeline 1, FetchConfig 1, FindJobID 10,
         BuildPipeline 1, FetchConfig 1, FindJobID 11,
         BuildPipeline 1, FetchConfig 1, FindJobID 12, Logged ''find-job-id-for-build'',
         Lookup ''h12'', WorkerRelease ''h12'', UpdateExpiresAt ''h12'',
         Lookup ''h10'', WorkerRelease ''h10'', UpdateExpiresAt ''h10''])"
proof -
  let ?cs = "[container ''h10'' 10 ''unit'', container ''h11'' 11 ''unit'',
              container ''h12'' 12 ''unit'']"
  let ?cr = "fleet (resolveBelow 12) ([], Some ''no-connection'') (?cs, None)"
  have s: "FindContainersFromSuccessfulBuildsWithInfiniteTTL (db ?cr)
             = ([], Some ''no-connection'')"
    and f: "FindContainersFromUnsuccessfulBuildsWithInfiniteTTL (db ?cr) = (?cs, None)"
    by (simp_all add: fleet_def)
  have p: "\<forall>c\<in>set ?cs. 0 < BuildID c"
    by (simp add: container_def)
  have r: "fst (Run ?cr (visit [1])) = None"
    using failed_successful_query_means_no_success_on_record [OF s f p, of "[]" "visit [1]"]
    by blast
  have t: "snd (Run ?cr (visit [1])) =
        [FindSuccessful, Logged ''running-container-reaper'',
         Logged ''failed-to-find-successful-containers'', FindUnsuccessful,
         BuildPipeline 1, FetchConfig 1, FindJobID 10,
         BuildPipeline 1, FetchConfig 1, FindJobID 11,
         BuildPipeline 1, FetchConfig 1, FindJobID 12, Logged ''find-job-id-for-build'',
         Lookup ''h12'', WorkerRelease ''h12'', UpdateExpiresAt ''h12'',
         Lookup ''h10'', WorkerRelease ''h10'', UpdateExpiresAt ''h10'']"
    by (simp add: Run_def releaseSuccessful_def releaseJobs_def releaseJob_def
          maxFailedBuildID_def mapIndex_def buildSuccessMap_def buildFailedMap_def
          buildFailedMapStep_def release_def updateWorkerContainerTTL_def fleet_def
          container_def resolveBelow_def visit_def Let_def)
  show ?thesis using s f p r t by (simp add: prod_eq_iff)
qed

subsection \<open>C10: the second release of an unresolvable successful container\<close>

text \<open>
  C10, as stated, fails. When the query for the unsuccessful-build candidates fails,
  \<open>Run\<close> returns before the aggregate is built: the successful-build container
  \<open>s13\<close>, whose build resolves to no job, is released once, in the disposal loop.
\<close>

theorem released_once_when_unsuccessful_query_fails:
  "unresolvable
     (fleet (resolveBelow 13) ([container ''s13'' 13 ''unit''], None) ([], Some ''no-connection''))
     (container ''s13'' 13 ''unit'')
   \<and> Run (fleet (resolveBelow 13) ([container ''s13'' 13 ''unit''], None)
            ([], Some ''no-connection''))
        (visit [])
     = (Some ''no-connection'',
        [FindSuccessful, Logged ''running-container-reaper'', Logged ''successful-container: '',
         Lookup ''s13'', WorkerRelease ''s13'', UpdateExpiresAt ''s13'',
         FindUnsuccessful, Logged ''failed-to-find-unsuccessful-containers''])"
  by (simp add: Run_def releaseSuccessful_def release_def updateWorkerContainerTTL_def
        unresolvable_def fleet_def container_def resolveBelow_def visit_def Let_def)

lemma releaseSuccessful_contains:
  "c \<in> set cs \<Longrightarrow>
     \<exists>a b. releaseSuccessful cr cs t = t @ a @ snd (release cr (Handle c) []) @ b"
proof (induction cs arbitrary: t)
  case Nil
  then show ?case by simp
next
  case (Cons c' cs)
  let ?log = "[Logged ''successful-container: '']"
  let ?t' = "snd (release cr (Handle c') (t @ ?log))"
  have t': "?t' = t @ ?log @ snd (release cr (Handle c') [])"
    using release_extends [of cr "Handle c'" "t @ ?log"] by simp
  have unfold: "releaseSuccessful cr (c' # cs) t = releaseSuccessful cr cs ?t'"
    by (simp add: releaseSuccessful_def)
  show ?case
  proof (cases "c = c'")
    case True
    have "releaseSuccessful cr cs ?t' = ?t' @ releaseSuccessful cr cs []"
      by (rule releaseSuccessful_extends)
    then have "releaseSuccessful cr (c' # cs) t =
        t @ ?log @ snd (release cr (Handle c) []) @ releaseSuccessful cr cs []"
      using unfold t' True by simp
    then show ?thesis by blast
  next
    case False
    then have "c \<in> set cs" using Cons.prems by simp
    then obtain a b where "releaseSuccessful cr cs ?t' = ?t' @ a @ snd (release cr (Handle c) []) @ b"
      using Cons.IH [of ?t'] by blast
    then have "releaseSuccessful cr (c' # cs) t =
        t @ (?log @ snd (release cr (Handle c') []) @ a) @ snd (release cr (Handle c) []) @ b"
      using unfold t' by simp
    then show ?thesis by blast
  qed
qed

lemma buildSuccessMapStep_unresolvable:
  assumes "unresolvable cr c"
  shows "snd (buildSuccessMapStep cr (m, t) c) =
           t @ [FindJobID (BuildID c), Logged ''find-job-id-for-build''] @
           snd (release cr (Handle c) [])"
  using assms
    release_extends [of cr "Handle c"
      "t @ [FindJobID (BuildID c), Logged ''find-job-id-for-build'']"]
  by (auto simp: buildSuccessMapStep_def unresolvable_def Let_def split: prod.splits)

lemma buildSuccessMap_fold_contains:
  "c \<in> set cs \<Longrightarrow> unresolvable cr c \<Longrightarrow>
     \<exists>a b. snd (foldl (buildSuccessMapStep cr) (m, t) cs) =
             t @ a @ snd (release cr (Handle c) []) @ b"
proof (induction cs arbitrary: m t)
  case Nil
  then show ?case by simp
next
  case (Cons c' cs)
  obtain m' t' where s: "buildSuccessMapStep cr (m, t) c' = (m', t')"
    by (cases "buildSuccessMapStep cr (m, t) c'")
  show ?case
  proof (cases "c = c'")
    case True
    have t': "t' = t @ [FindJobID (BuildID c), Logged ''find-job-id-for-build''] @
                snd (release cr (Handle c) [])"
      using buildSuccessMapStep_unresolvable [OF Cons.prems(2), of m t] s True by simp
    obtain v where "snd (foldl (buildSuccessMapStep cr) (m', t') cs) = t' @ v"
      using buildSuccessMap_fold_prefix [of cr m' t' cs] by blast
    then have "snd (foldl (buildSuccessMapStep cr) (m, t) (c' # cs)) =
        t @ [FindJobID (BuildID c), Logged ''find-job-id-for-build''] @
        snd (release cr (Handle c) []) @ v"
      using s t' by simp
    then show ?thesis by blast
  next
    case False
    then have "c \<in> set cs" using Cons.prems(1) by simp
    then obtain a b where
      "snd (foldl (buildSuccessMapStep cr) (m', t') cs) =
         t' @ a @ snd (release cr (Handle c) []) @ b"
      using Cons.IH [of m' t'] Cons.prems(2) by blast
    moreover obtain u where "t' = t @ u"
      using buildSuccessMapStep_prefix [of cr m t c'] s by auto
    ultimately have "snd (foldl (buildSuccessMapStep cr) (m, t) (c' # cs)) =
        t @ (u @ a) @ snd (release cr (Handle c) []) @ b"
      using s by simp
    then show ?thesis by blast
  qed
qed

lemma buildSuccessMap_contains:
  assumes "c \<in> set cs" and "unresolvable cr c"
  shows "\<exists>a b. snd (buildSuccessMap cr cs t) = t @ a @ snd (release cr (Handle c) []) @ b"
proof -
  have "cs \<noteq> []" using assms(1) by auto
  then show ?thesis
    using buildSuccessMap_fold_contains [OF assms, of Map.empty t]
    by (simp add: buildSuccessMap_def)
qed

lemma Run_release_twice:
  assumes "FindContainersFromSuccessfulBuildsWithInfiniteTTL (db cr) = (succ, None)"
      and "FindContainersFromUnsuccessfulBuildsWithInfiniteTTL (db cr) = (failed, None)"
      and "c \<in> set succ"
      and "unresolvable cr c"
  shows "\<exists>p q r. snd (Run cr order) =
           p @ snd (release cr (Handle c) []) @ q @ snd (release cr (Handle c) []) @ r"
proof -
  let ?rel = "snd (release cr (Handle c) [])"
  let ?t1 = "[FindSuccessful, Logged ''running-container-reaper'']"
  let ?t3 = "releaseSuccessful cr succ ?t1 @ [FindUnsuccessful]"
  obtain a b where t2: "releaseSuccessful cr succ ?t1 = ?t1 @ a @ ?rel @ b"
    using releaseSuccessful_contains [OF assms(3), of cr ?t1] by blast
  obtain fm t4 where f: "buildFailedMap cr failed ?t3 = (fm, t4)"
    by (cases "buildFailedMap cr failed ?t3")
  obtain sm t5 where s: "buildSuccessMap cr succ t4 = (sm, t5)"
    by (cases "buildSuccessMap cr succ t4")
  obtain u4 where u4: "t4 = ?t3 @ u4"
    using buildFailedMap_prefix [of cr failed ?t3] f by auto
  obtain a' b' where t5: "t5 = t4 @ a' @ ?rel @ b'"
    using buildSuccessMap_contains [OF assms(3,4), of t4] s by auto
  obtain u6 where u6: "releaseJobs cr (order fm) fm sm t5 = t5 @ u6"
    using releaseJobs_prefix [of cr "order fm" fm sm t5] by auto
  have "snd (Run cr order) = releaseJobs cr (order fm) fm sm t5"
    using assms(1,2) f s by (simp add: Run_def Let_def)
  then have "snd (Run cr order) =
      (?t1 @ a) @ ?rel @ (b @ [FindUnsuccessful] @ u4 @ a') @ ?rel @ (b' @ u6)"
    using t2 u4 t5 u6 by simp
  then show ?thesis by blast
qed

text \<open>
  C10, amended. In a pass in which both candidate queries succeed, for every
  successful-build candidate whose build resolves to no job, the release operation runs
  twice on its handle: its whole sequence of calls occurs in the trace once in the
  disposal loop and once more while the aggregate is built. The handle is released at
  least twice in the pass, and exactly twice when the handles of the successful
  candidates are pairwise distinct and none of them is an unsuccessful candidate's.
\<close>

theorem unresolvable_successful_released_twice:
  assumes "FindContainersFromSuccessfulBuildsWithInfiniteTTL (db cr) = (successfulContainers, None)"
      and "FindContainersFromUnsuccessfulBuildsWithInfiniteTTL (db cr) = (failedContainers, None)"
      and "c \<in> set successfulContainers"
      and "unresolvable cr c"
  shows "(\<exists>p q r. snd (Run cr order) =
            p @ snd (release cr (Handle c) []) @ q @ snd (release cr (Handle c) []) @ r)
       \<and> Handle c \<in> set (releases (releaseSuccessful cr successfulContainers []))
       \<and> Handle c \<in> set (releases (snd (buildSuccessMap cr successfulContainers [])))
       \<and> 2 \<le> count_list (releases (snd (Run cr order))) (Handle c)
       \<and> (distinct (map Handle successfulContainers)
            \<and> Handle c \<notin> Handle ` set failedContainers \<longrightarrow>
            count_list (releases (snd (Run cr order))) (Handle c) = 2)"
proof -
  let ?h = "Handle c"
  let ?A = "map Handle successfulContainers"
  let ?B = "map Handle
              (filter (\<lambda>c. staleByConfiguration cr c \<or> unresolvable cr c) failedContainers)"
  let ?C = "map Handle (filter (unresolvable cr) successfulContainers)"
  let ?D = "jobsSelection (fst (buildFailedMap cr failedContainers []))
              (aggregate cr Map.empty successfulContainers)
              (order (fst (buildFailedMap cr failedContainers [])))"
  have r: "releases (snd (Run cr order)) = ?A @ ?B @ ?C @ ?D"
    using Run_releases [OF assms(1,2), of order] by simp
  have inA: "?h \<in> set ?A" using assms(3) by simp
  have inC: "?h \<in> set ?C" using assms(3,4) by simp
  have a: "?h \<in> set (releases (releaseSuccessful cr successfulContainers []))"
    using inA by (simp add: releaseSuccessful_releases)
  have b: "?h \<in> set (releases (snd (buildSuccessMap cr successfulContainers [])))"
    using inC by (simp add: buildSuccessMap_releases)
  have cA: "1 \<le> count_list ?A ?h" and cC: "1 \<le> count_list ?C ?h"
    using inA inC count_list_0_iff [of ?A ?h] count_list_0_iff [of ?C ?h] by linarith+
  have two: "2 \<le> count_list (releases (snd (Run cr order))) ?h"
    unfolding r using cA cC by simp
  have exact: "distinct (map Handle successfulContainers)
            \<and> Handle c \<notin> Handle ` set failedContainers \<longrightarrow>
            count_list (releases (snd (Run cr order))) ?h = 2"
  proof
    assume h: "distinct (map Handle successfulContainers)
               \<and> Handle c \<notin> Handle ` set failedContainers"
    have dA: "distinct ?A" using h by simp
    have dC: "distinct ?C" using h by (simp add: distinct_map_filter)
    have "count_list ?A ?h = 1"
      using dA inA by (rule count_list_distinct)
    moreover have "count_list ?C ?h = 1"
      using dC inC by (rule count_list_distinct)
    moreover have "?h \<notin> set ?B"
      using h by auto
    moreover have "?h \<notin> set ?D"
      using h jobsSelection_subset [of cr failedContainers "[]"] by blast
    ultimately show "count_list (releases (snd (Run cr order))) ?h = 2"
      unfolding r by simp
  qed
  have twice: "\<exists>p q r. snd (Run cr order) =
            p @ snd (release cr (Handle c) []) @ q @ snd (release cr (Handle c) []) @ r"
    using assms by (rule Run_release_twice)
  show ?thesis using twice a b two exact by blast
qed

theorem unresolvable_successful_released_twice_witness:
  "FindContainersFromSuccessfulBuildsWithInfiniteTTL
     (db (fleet (resolveBelow 13) ([container ''s13'' 13 ''unit''], None)
            ([container ''h12'' 12 ''unit''], None)))
     = ([container ''s13'' 13 ''unit''], None)
   \<and> FindContainersFromUnsuccessfulBuildsWithInfiniteTTL
     (db (fleet (resolveBelow 13) ([container ''s13'' 13 ''unit''], None)
            ([container ''h12'' 12 ''unit''], None)))
     = ([container ''h12'' 12 ''unit''], None)
   \<and> container ''s13'' 13 ''unit'' \<in> set [container ''s13'' 13 ''unit'']
   \<and> unresolvable
       (fleet (resolveBelow 13) ([container ''s13'' 13 ''unit''], None)
          ([container ''h12'' 12 ''unit''], None))
       (container ''s13'' 13 ''unit'')
   \<and> count_list
       (releases (snd (Run
          (fleet (resolveBelow 13) ([container ''s13'' 13 ''unit''], None)
             ([container ''h12'' 12 ''unit''], None))
          (visit [1]))))
       ''s13'' = 2"
proof -
  let ?c = "container ''s13'' 13 ''unit''"
  let ?cr = "fleet (resolveBelow 13) ([?c], None) ([container ''h12'' 12 ''unit''], None)"
  have s: "FindContainersFromSuccessfulBuildsWithInfiniteTTL (db ?cr) = ([?c], None)"
    and f: "FindContainersFromUnsuccessfulBuildsWithInfiniteTTL (db ?cr)
              = ([container ''h12'' 12 ''unit''], None)"
    by (simp_all add: fleet_def)
  have i: "?c \<in> set [?c]" by simp
  have u: "unresolvable ?cr ?c"
    by (simp add: unresolvable_def fleet_def container_def resolveBelow_def)
  have d: "distinct (map Handle [?c]) \<and> Handle ?c \<notin> Handle ` set [container ''h12'' 12 ''unit'']"
    by (simp add: container_def)
  have "count_list (releases (snd (Run ?cr (visit [1])))) (Handle ?c) = 2"
    using unresolvable_successful_released_twice [OF s f i u, of "visit [1]"] d by blast
  then have "count_list (releases (snd (Run ?cr (visit [1])))) ''s13'' = 2"
    by (simp add: container_def)
  then show ?thesis using s f i u by blast
qed

end
